theory Spec2Isabelle
  imports Complex_Main "HOL-Library.FSet"
begin

section \<open>Python values as they come out of the JSON responses\<close>

text \<open>
  The scanner of \<^verbatim>\<open>defi_nft_bot-1.py\<close> works on what \<^verbatim>\<open>response.json()\<close>
  returns: \<^verbatim>\<open>None\<close>, booleans, integers, strings, lists and dictionaries with string
  keys. Numbers are the integers (the counts of the data model); strings are ASCII text, one
  \<open>char\<close> per character. A dictionary is an association list in which the first binding
  of a key is the one that counts.
\<close>

datatype json =
    JNull
  | JBool bool
  | JInt int
  | JStr string
  | JList "json list"
  | JDict "(string \<times> json) list"

datatype py_error = AttributeError | TypeError | IndexError | KeyError

text \<open>Truth value of an object, as \<^verbatim>\<open>not x\<close> and \<^verbatim>\<open>x or y\<close> test it.\<close>

fun truthy :: "json \<Rightarrow> bool" where
  "truthy JNull = False"
| "truthy (JBool b) = b"
| "truthy (JInt n) = (n \<noteq> 0)"
| "truthy (JStr s) = (s \<noteq> [])"
| "truthy (JList xs) = (xs \<noteq> [])"
| "truthy (JDict kvs) = (kvs \<noteq> [])"

definition py_or :: "json \<Rightarrow> json \<Rightarrow> json" where
  "py_or x y = (if truthy x then x else y)"

text \<open>\<^verbatim>\<open>d.get(k, default)\<close>: only a dictionary has the method.\<close>

fun dict_get :: "json \<Rightarrow> string \<Rightarrow> json \<Rightarrow> py_error + json" where
  "dict_get (JDict kvs) k d = Inr (case map_of kvs k of None \<Rightarrow> d | Some v \<Rightarrow> v)"
| "dict_get _ k d = Inl AttributeError"

text \<open>\<^verbatim>\<open>x < k\<close> for an integer literal \<open>k\<close>; \<^verbatim>\<open>True\<close> and \<^verbatim>\<open>False\<close> count as 1 and 0.\<close>

fun py_lt :: "json \<Rightarrow> int \<Rightarrow> py_error + bool" where
  "py_lt (JInt n) k = Inr (n < k)"
| "py_lt (JBool b) k = Inr ((if b then 1 else 0) < k)"
| "py_lt _ k = Inl TypeError"

text \<open>\<^verbatim>\<open>len(x)\<close>, \<^verbatim>\<open>x[:n]\<close>, \<^verbatim>\<open>x[-n:]\<close>, \<^verbatim>\<open>x[0]\<close> and iteration.
  Slicing a dictionary raises (TypeError up to Python 3.11, KeyError from 3.12 on; the
  model says TypeError).\<close>

fun py_len :: "json \<Rightarrow> py_error + nat" where
  "py_len (JStr s) = Inr (length s)"
| "py_len (JList xs) = Inr (length xs)"
| "py_len (JDict kvs) = Inr (length (remdups (map fst kvs)))"
| "py_len _ = Inl TypeError"

fun py_slice_to :: "json \<Rightarrow> nat \<Rightarrow> py_error + json" where
  "py_slice_to (JStr s) n = Inr (JStr (take n s))"
| "py_slice_to (JList xs) n = Inr (JList (take n xs))"
| "py_slice_to _ n = Inl TypeError"

fun py_slice_last :: "json \<Rightarrow> nat \<Rightarrow> py_error + json" where
  "py_slice_last (JStr s) n = Inr (JStr (drop (length s - n) s))"
| "py_slice_last (JList xs) n = Inr (JList (drop (length xs - n) xs))"
| "py_slice_last _ n = Inl TypeError"

fun py_index0 :: "json \<Rightarrow> py_error + json" where
  "py_index0 (JList []) = Inl IndexError"
| "py_index0 (JList (x # xs)) = Inr x"
| "py_index0 (JStr []) = Inl IndexError"
| "py_index0 (JStr (c # cs)) = Inr (JStr [c])"
| "py_index0 (JDict kvs) = Inl KeyError"
| "py_index0 _ = Inl TypeError"

fun py_iter :: "json \<Rightarrow> py_error + json list" where
  "py_iter (JList xs) = Inr xs"
| "py_iter (JStr s) = Inr (map (\<lambda>c. JStr [c]) s)"
| "py_iter (JDict kvs) = Inr (map JStr (remdups (map fst kvs)))"
| "py_iter _ = Inl TypeError"

subsection \<open>Strings: \<^verbatim>\<open>upper\<close>, \<^verbatim>\<open>lower\<close>, \<^verbatim>\<open>in\<close>, \<^verbatim>\<open>str\<close>\<close>

definition upper_char :: "char \<Rightarrow> char" where
  "upper_char c =
     (let n = (of_char c :: nat) in if 97 \<le> n \<and> n \<le> 122 then char_of (n - 32) else c)"

definition lower_char :: "char \<Rightarrow> char" where
  "lower_char c =
     (let n = (of_char c :: nat) in if 65 \<le> n \<and> n \<le> 90 then char_of (n + 32) else c)"

fun py_upper :: "json \<Rightarrow> py_error + json" where
  "py_upper (JStr s) = Inr (JStr (map upper_char s))"
| "py_upper _ = Inl AttributeError"

fun starts_with :: "string \<Rightarrow> string \<Rightarrow> bool" where
  "starts_with s [] = True"
| "starts_with [] (p # ps) = False"
| "starts_with (c # cs) (p # ps) = (c = p \<and> starts_with cs ps)"

fun contains :: "string \<Rightarrow> string \<Rightarrow> bool" where
  "contains [] p = (p = [])"
| "contains (c # cs) p = (starts_with (c # cs) p \<or> contains cs p)"

fun join :: "string \<Rightarrow> string list \<Rightarrow> string" where
  "join sep [] = []"
| "join sep [x] = x"
| "join sep (x # y # ys) = x @ sep @ join sep (y # ys)"

fun digits10 :: "nat \<Rightarrow> string" where
  "digits10 n =
     (if n < 10 then [char_of (48 + n)] else digits10 (n div 10) @ [char_of (48 + n mod 10)])"

declare digits10.simps [simp del]

definition str_int :: "int \<Rightarrow> string" where
  "str_int i = (if i < 0 then CHR ''-'' # digits10 (nat (- i)) else digits10 (nat i))"

definition hex_digit :: "nat \<Rightarrow> char" where
  "hex_digit d = (if d < 10 then char_of (48 + d) else char_of (87 + d))"

text \<open>\<^verbatim>\<open>repr\<close> of a string: single quotes, unless the string has a single quote and no
  double quote; the backslash, the quote in use and the control characters are escaped.\<close>

definition repr_char :: "char \<Rightarrow> char \<Rightarrow> string" where
  "repr_char q c =
     (let n = (of_char c :: nat) in
      if c = CHR 0x5C then [CHR 0x5C, CHR 0x5C]
      else if c = q then [CHR 0x5C, q]
      else if n = 10 then [CHR 0x5C, CHR ''n'']
      else if n = 13 then [CHR 0x5C, CHR ''r'']
      else if n = 9 then [CHR 0x5C, CHR ''t'']
      else if n < 32 \<or> n = 127 then [CHR 0x5C, CHR ''x'', hex_digit (n div 16), hex_digit (n mod 16)]
      else [c])"

definition repr_str :: "string \<Rightarrow> string" where
  "repr_str s =
     (let q = (if CHR 0x27 \<in> set s \<and> CHR 0x22 \<notin> set s then CHR 0x22 else CHR 0x27)
      in [q] @ concat (map (repr_char q) s) @ [q])"

primrec py_repr :: "json \<Rightarrow> string" where
  "py_repr JNull = ''None''"
| "py_repr (JBool b) = (if b then ''True'' else ''False'')"
| "py_repr (JInt n) = str_int n"
| "py_repr (JStr s) = repr_str s"
| "py_repr (JList xs) = ''['' @ join '', '' (map py_repr xs) @ '']''"
| "py_repr (JDict kvs) =
     ''{'' @ join '', '' (map (\<lambda>kv. repr_str (fst kv) @ '': '' @ snd kv) (map (map_prod id py_repr) kvs))
       @ ''}''"

definition py_str :: "json \<Rightarrow> string" where
  "py_str v = (case v of JStr s \<Rightarrow> s | _ \<Rightarrow> py_repr v)"

subsection \<open>Hashing: membership in a set\<close>

text \<open>Lists and dictionaries are unhashable; \<^verbatim>\<open>True == 1\<close> and \<^verbatim>\<open>False == 0\<close>, so a
  set holds one of each pair. The store keeps identifiers under \<open>hash_key\<close>.\<close>

fun hashable :: "json \<Rightarrow> bool" where
  "hashable (JList xs) = False"
| "hashable (JDict kvs) = False"
| "hashable _ = True"

fun hash_key :: "json \<Rightarrow> json" where
  "hash_key (JBool b) = JInt (if b then 1 else 0)"
| "hash_key j = j"

definition py_in :: "json \<Rightarrow> json fset \<Rightarrow> py_error + bool" where
  "py_in x S = (if hashable x then Inr (hash_key x |\<in>| S) else Inl TypeError)"

section \<open>The world: the Dedup Store and what the scanner does to the outside\<close>

text \<open>
  \<open>sent_projects\<close> is the module's global set. \<open>trace\<close> records, newest first, the HTTP
  requests, the \<^verbatim>\<open>Found matching project\<close> log record and the pacing delays. The
  network is a function of the history up to and including the request just issued, so the
  same identifier may get different answers at different times.
\<close>

datatype event = ListRequest | DetailRequest json | Found json | Sleep rat

datatype http_result = Transport_failure | Response nat "json option"

type_synonym net = "event list \<Rightarrow> http_result"

record world =
  sent_projects :: "json fset"
  trace :: "event list"

record project_info =
  coin_id :: json
  name :: json
  symbol :: json
  description :: json
  twitter_followers :: json
  telegram_users :: json
  homepage :: json
  twitter :: json
  telegram :: json
  discord :: json
  categories :: json
  contract_address :: json
  market_cap :: json

definition pbind :: "py_error + 'a \<Rightarrow> ('a \<Rightarrow> py_error + 'b) \<Rightarrow> py_error + 'b" where
  "pbind m f = (case m of Inl e \<Rightarrow> Inl e | Inr v \<Rightarrow> f v)"

section \<open>ProjectScanner\<close>

text \<open>\<^verbatim>\<open>get_new_coins\<close>: every exception inside the \<^verbatim>\<open>try\<close> gives \<^verbatim>\<open>[]\<close>, also the
  one of \<^verbatim>\<open>response.json()\<close> on a body that is not JSON (\<open>None\<close> here) and the ones of
  \<^verbatim>\<open>len\<close> and of the slice.\<close>

definition new_coins_of :: "http_result \<Rightarrow> json" where
  "new_coins_of r =
     (case r of
        Transport_failure \<Rightarrow> JList []
      | Response status body \<Rightarrow>
          if status = 200 then
            (case body of
               None \<Rightarrow> JList []
             | Some coins \<Rightarrow>
                 (case py_len coins of
                    Inl e \<Rightarrow> JList []
                  | Inr n \<Rightarrow>
                      if n > 100 then
                        (case py_slice_last coins 100 of Inl e \<Rightarrow> JList [] | Inr v \<Rightarrow> v)
                      else coins))
          else JList [])"

definition get_new_coins :: "net \<Rightarrow> world \<Rightarrow> world \<times> json" where
  "get_new_coins net w =
     (let w' = w\<lparr>trace := ListRequest # trace w\<rparr> in (w', new_coins_of (net (trace w'))))"

text \<open>\<^verbatim>\<open>get_coin_details\<close>: \<^verbatim>\<open>None\<close> (\<open>JNull\<close>) on a status other than 200 and on any
  exception.\<close>

definition details_of :: "http_result \<Rightarrow> json" where
  "details_of r =
     (case r of
        Transport_failure \<Rightarrow> JNull
      | Response status body \<Rightarrow>
          if status = 200 then (case body of None \<Rightarrow> JNull | Some j \<Rightarrow> j) else JNull)"

definition get_coin_details :: "net \<Rightarrow> world \<Rightarrow> json \<Rightarrow> world \<times> json" where
  "get_coin_details net w cid =
     (let w' = w\<lparr>trace := DetailRequest cid # trace w\<rparr> in (w', details_of (net (trace w'))))"

text \<open>Lines 106 to 110: the two social metrics, and \<^verbatim>\<open>links\<close>.\<close>

definition social_metrics :: "json \<Rightarrow> py_error + (json \<times> json \<times> json)" where
  "social_metrics details =
     pbind (dict_get details ''community_data'' (JDict [])) (\<lambda>community_data.
     pbind (dict_get details ''links'' (JDict [])) (\<lambda>links.
     pbind (dict_get community_data ''twitter_followers'' (JInt 0)) (\<lambda>tw.
     pbind (dict_get community_data ''telegram_channel_user_count'' (JInt 0)) (\<lambda>tg.
     Inr (links, py_or tw (JInt 0), py_or tg (JInt 0))))))"

text \<open>Line 113; \<^verbatim>\<open>and\<close> does not evaluate its right side when the left one is false.\<close>

definition matches_criteria :: "json \<Rightarrow> json \<Rightarrow> py_error + bool" where
  "matches_criteria tw tg =
     pbind (py_lt tw 200) (\<lambda>b. if b then py_lt tg 50 else Inr False)"

definition homepage_of :: "json \<Rightarrow> py_error + json" where
  "homepage_of links =
     pbind (dict_get links ''homepage'' JNull) (\<lambda>h.
       if truthy h then pbind (dict_get links ''homepage'' (JList [JStr []])) py_index0
       else Inr (JStr []))"

definition discord_of :: "json \<Rightarrow> py_error + json" where
  "discord_of links =
     pbind (dict_get links ''chat_url'' (JStr [])) (\<lambda>c.
       if contains (map lower_char (py_str c)) ''discord''
       then pbind (dict_get links ''chat_url'' (JList [JStr []])) py_index0
       else Inr (JStr []))"

text \<open>Lines 114 to 128, the entries in the order the dictionary display evaluates them.\<close>

definition build_project_info ::
  "json \<Rightarrow> json \<Rightarrow> json \<Rightarrow> json \<Rightarrow> json \<Rightarrow> py_error + project_info" where
  "build_project_info cid details links tw tg =
     pbind (dict_get details ''name'' (JStr ''Unknown'')) (\<lambda>nm.
     pbind (pbind (dict_get details ''symbol'' (JStr [])) py_upper) (\<lambda>sy.
     pbind (pbind (pbind (dict_get details ''description'' (JDict []))
                    (\<lambda>d. dict_get d ''en'' (JStr ''No description available'')))
              (\<lambda>en. py_slice_to en 500)) (\<lambda>de.
     pbind (homepage_of links) (\<lambda>hp.
     pbind (dict_get links ''twitter_screen_name'' (JStr [])) (\<lambda>twi.
     pbind (dict_get links ''telegram_channel_identifier'' (JStr [])) (\<lambda>tel.
     pbind (discord_of links) (\<lambda>dis.
     pbind (dict_get details ''categories'' (JList [])) (\<lambda>cats.
     pbind (dict_get details ''contract_address'' (JStr [])) (\<lambda>ca.
     pbind (pbind (pbind (dict_get details ''market_data'' (JDict []))
                    (\<lambda>md. dict_get md ''market_cap'' (JDict [])))
              (\<lambda>mc. dict_get mc ''usd'' (JInt 0))) (\<lambda>cap.
     Inr \<lparr>coin_id = cid, name = nm, symbol = sy, description = de,
          twitter_followers = tw, telegram_users = tg, homepage = hp,
          twitter = twi, telegram = tel, discord = dis, categories = cats,
          contract_address = ca, market_cap = cap\<rparr>))))))))))"

text \<open>Lines 105 to 128 on a detail record: \<open>Inr None\<close> when the criteria are not met.\<close>

definition check_details :: "json \<Rightarrow> json \<Rightarrow> py_error + project_info option" where
  "check_details cid details =
     pbind (social_metrics details) (\<lambda>(links, tw, tg).
     pbind (matches_criteria tw tg) (\<lambda>b.
       if b then pbind (build_project_info cid details links tw tg) (\<lambda>p. Inr (Some p))
       else Inr None))"

text \<open>The body of the loop of \<^verbatim>\<open>scan_for_projects\<close>, lines 94 to 136. Both
  \<^verbatim>\<open>continue\<close> statements leave the body before the delay of line 136.\<close>

definition scan_coin :: "net \<Rightarrow> world \<Rightarrow> json \<Rightarrow> world \<times> (py_error + project_info option)" where
  "scan_coin net w coin =
     (case dict_get coin ''id'' JNull of
        Inl e \<Rightarrow> (w, Inl e)
      | Inr cid \<Rightarrow>
          (case py_in cid (sent_projects w) of
             Inl e \<Rightarrow> (w, Inl e)
           | Inr True \<Rightarrow> (w, Inr None)
           | Inr False \<Rightarrow>
               (let (w1, details) = get_coin_details net w cid in
                if \<not> truthy details then (w1, Inr None)
                else
                  (case check_details cid details of
                     Inl e \<Rightarrow> (w1, Inl e)
                   | Inr None \<Rightarrow> (w1\<lparr>trace := Sleep (3 / 2) # trace w1\<rparr>, Inr None)
                   | Inr (Some p) \<Rightarrow>
                       (w1\<lparr>sent_projects := finsert (hash_key cid) (sent_projects w1),
                           trace := Sleep (3 / 2) # Found (name p) # trace w1\<rparr>,
                        Inr (Some p))))))"

fun scan_loop ::
  "net \<Rightarrow> world \<Rightarrow> json list \<Rightarrow> project_info list \<Rightarrow> world \<times> (py_error + project_info list)" where
  "scan_loop net w [] matching_projects = (w, Inr matching_projects)"
| "scan_loop net w (coin # coins) matching_projects =
     (case scan_coin net w coin of
        (w', Inl e) \<Rightarrow> (w', Inl e)
      | (w', Inr None) \<Rightarrow> scan_loop net w' coins matching_projects
      | (w', Inr (Some p)) \<Rightarrow> scan_loop net w' coins (matching_projects @ [p]))"

definition scan_for_projects :: "net \<Rightarrow> world \<Rightarrow> world \<times> (py_error + project_info list)" where
  "scan_for_projects net w =
     (let (w1, coins) = get_new_coins net w in
      case pbind (py_slice_to coins 20) py_iter of
        Inl e \<Rightarrow> (w1, Inl e)
      | Inr cs \<Rightarrow> scan_loop net w1 cs [])"

text \<open>Scans that do not overlap: each one runs to its end before the next one starts. A scan
  that raises delivers nothing.\<close>

fun run_scans :: "net \<Rightarrow> world \<Rightarrow> nat \<Rightarrow> world \<times> project_info list" where
  "run_scans net w 0 = (w, [])"
| "run_scans net w (Suc n) =
     (case scan_for_projects net w of
        (w1, r) \<Rightarrow>
          (case run_scans net w1 n of
             (w2, rs) \<Rightarrow> (w2, (case r of Inl e \<Rightarrow> [] | Inr ps \<Rightarrow> ps) @ rs)))"

definition initial_world :: world where
  "initial_world = \<lparr>sent_projects = {||}, trace = []\<rparr>"



section \<open>Scans that overlap\<close>

text \<open>
  \<^verbatim>\<open>scan_command\<close> (line 224) and \<^verbatim>\<open>scheduled_scan\<close> (line 309) run on one event
  loop, and nothing keeps two scans apart. A coroutine gives up control at its
  \<^verbatim>\<open>await\<close>s only: in \<^verbatim>\<open>get_new_coins\<close> (line 89), in \<^verbatim>\<open>get_coin_details\<close>
  (line 101) and in \<^verbatim>\<open>asyncio.sleep\<close> (line 136). A \<open>task\<close> is a scan suspended at one of
  them, with what it holds in its local variables; \<open>task_step\<close> runs it from there to its
  next \<^verbatim>\<open>await\<close>, on the world as it is by then.
\<close>

datatype task =
    Start
  | AwaitList json
  | AwaitDetail json json "json list" "project_info list"
  | Sleeping "json list" "project_info list"
  | Done "py_error + project_info list"

text \<open>Lines 94 to 101 for one candidate, up to the request: \<open>Inr None\<close> is the
  \<^verbatim>\<open>continue\<close> of line 98, \<open>Inr (Some (coin_id, details))\<close> a request under way.\<close>

definition scan_coin_begin ::
  "net \<Rightarrow> world \<Rightarrow> json \<Rightarrow> world \<times> (py_error + (json \<times> json) option)" where
  "scan_coin_begin net w coin =
     (case dict_get coin ''id'' JNull of
        Inl e \<Rightarrow> (w, Inl e)
      | Inr cid \<Rightarrow>
          (case py_in cid (sent_projects w) of
             Inl e \<Rightarrow> (w, Inl e)
           | Inr True \<Rightarrow> (w, Inr None)
           | Inr False \<Rightarrow>
               (let (w1, details) = get_coin_details net w cid
                in (w1, Inr (Some (cid, details))))))"

text \<open>The loop from its head to the next request: candidates already seen do not suspend.\<close>

fun run_to_await ::
  "net \<Rightarrow> world \<Rightarrow> json list \<Rightarrow> project_info list \<Rightarrow> world \<times> task" where
  "run_to_await net w [] matching_projects = (w, Done (Inr matching_projects))"
| "run_to_await net w (coin # coins) matching_projects =
     (case scan_coin_begin net w coin of
        (w1, Inl e) \<Rightarrow> (w1, Done (Inl e))
      | (w1, Inr None) \<Rightarrow> run_to_await net w1 coins matching_projects
      | (w1, Inr (Some (cid, details))) \<Rightarrow> (w1, AwaitDetail cid details coins matching_projects))"

fun task_step :: "net \<Rightarrow> world \<Rightarrow> task \<Rightarrow> world \<times> task" where
  "task_step net w Start = (let (w1, coins) = get_new_coins net w in (w1, AwaitList coins))"
| "task_step net w (AwaitList coins) =
     (case pbind (py_slice_to coins 20) py_iter of
        Inl e \<Rightarrow> (w, Done (Inl e))
      | Inr cs \<Rightarrow> run_to_await net w cs [])"
| "task_step net w (AwaitDetail cid details coins matching_projects) =
     (if \<not> truthy details then run_to_await net w coins matching_projects
      else
        (case check_details cid details of
           Inl e \<Rightarrow> (w, Done (Inl e))
         | Inr None \<Rightarrow> (w\<lparr>trace := Sleep (3 / 2) # trace w\<rparr>, Sleeping coins matching_projects)
         | Inr (Some p) \<Rightarrow>
             (w\<lparr>sent_projects := finsert (hash_key cid) (sent_projects w),
                trace := Sleep (3 / 2) # Found (name p) # trace w\<rparr>,
              Sleeping coins (matching_projects @ [p]))))"
| "task_step net w (Sleeping coins matching_projects) = run_to_await net w coins matching_projects"
| "task_step net w (Done r) = (w, Done r)"

text \<open>The event loop: the schedule names, step by step, the task that runs next.\<close>

fun run_schedule :: "net \<Rightarrow> world \<Rightarrow> task list \<Rightarrow> nat list \<Rightarrow> world \<times> task list" where
  "run_schedule net w ts [] = (w, ts)"
| "run_schedule net w ts (i # sched) =
     (if i < length ts then
        (case task_step net w (ts ! i) of (w', t') \<Rightarrow> run_schedule net w' (ts[i := t']) sched)
      else run_schedule net w ts sched)"

section \<open>Observations on the trace\<close>

fun is_detail_request :: "event \<Rightarrow> bool" where
  "is_detail_request (DetailRequest c) = True"
| "is_detail_request _ = False"


fun is_sleep :: "event \<Rightarrow> bool" where
  "is_sleep (Sleep t) = True"
| "is_sleep _ = False"

text \<open>The key under which the store holds the identifier of an emitted record.\<close>

definition project_key :: "project_info \<Rightarrow> json" where
  "project_key p = hash_key (coin_id p)"

definition detail_requests :: "world \<Rightarrow> nat" where
  "detail_requests w = length (filter is_detail_request (trace w))"


section \<open>Concrete listings, detail records and networks\<close>

definition coin_of :: "string \<Rightarrow> json" where
  "coin_of i = JDict [(''id'', JStr i), (''symbol'', JStr i), (''name'', JStr i)]"

definition details_social :: "string \<Rightarrow> int \<Rightarrow> int \<Rightarrow> json" where
  "details_social i tw tg =
     JDict [(''id'', JStr i), (''symbol'', JStr i), (''name'', JStr i),
            (''community_data'',
               JDict [(''twitter_followers'', JInt tw),
                      (''telegram_channel_user_count'', JInt tg)])]"

definition details_described :: "string \<Rightarrow> string \<Rightarrow> json" where
  "details_described i text =
     JDict [(''id'', JStr i), (''symbol'', JStr i), (''name'', JStr i),
            (''description'', JDict [(''en'', JStr text)])]"

text \<open>The record \<^verbatim>\<open>scan_for_projects\<close> builds from \<open>details_social i tw tg\<close>, for an
  identifier without lower-case letters.\<close>

definition project_of :: "string \<Rightarrow> int \<Rightarrow> int \<Rightarrow> project_info" where
  "project_of i tw tg =
     \<lparr>coin_id = JStr i, name = JStr i, symbol = JStr i,
      description = JStr ''No description available'',
      twitter_followers = JInt tw, telegram_users = JInt tg, homepage = JStr [],
      twitter = JStr [], telegram = JStr [], discord = JStr [], categories = JList [],
      contract_address = JStr [], market_cap = JInt 0\<rparr>"

text \<open>A network that answers the listing request with \<open>listing\<close> and a detail request
  from a table, status 404 for an identifier the table does not have.\<close>

definition net_table :: "http_result \<Rightarrow> (json \<times> json) list \<Rightarrow> net" where
  "net_table listing tbl h =
     (case h of
        ListRequest # _ \<Rightarrow> listing
      | DetailRequest c # _ \<Rightarrow>
          (case map_of tbl c of None \<Rightarrow> Response 404 None | Some d \<Rightarrow> Response 200 (Some d))
      | _ \<Rightarrow> Transport_failure)"

definition ok_list :: "json list \<Rightarrow> http_result" where
  "ok_list cs = Response 200 (Some (JList cs))"

definition world_seen :: "json list \<Rightarrow> world" where
  "world_seen ids = \<lparr>sent_projects = fset_of_list ids, trace = []\<rparr>"

definition listing25 :: "json list" where
  "listing25 = map (\<lambda>n. JDict [(''id'', JInt (int n))]) [0..<25]"

definition net_one :: "json \<Rightarrow> net" where
  "net_one d = net_table (ok_list [coin_of ''FOO'']) [(JStr ''FOO'', d)]"


definition net_twice :: net where
  "net_twice =
     net_table (ok_list [coin_of ''FOO'', coin_of ''FOO'', coin_of ''BAR''])
       [(JStr ''FOO'', details_social ''FOO'' 10 5),
        (JStr ''BAR'', details_social ''BAR'' 199 49)]"

text \<open>The first candidate has no detail record (status 404), the second one matches.\<close>

definition net_missing_first :: net where
  "net_missing_first =
     net_table (ok_list [coin_of ''FOO'', coin_of ''BAR''])
       [(JStr ''BAR'', details_social ''BAR'' 10 5)]"

text \<open>A detail record with nothing but the identifier; one whose inner dictionaries are
  there but empty, with a null count; and the record the scan builds from either.\<close>

definition details_bare :: json where
  "details_bare = JDict [(''id'', JStr ''FOO'')]"

definition details_hollow :: json where
  "details_hollow =
     JDict [(''id'', JStr ''FOO''),
            (''description'', JDict []),
            (''community_data'', JDict [(''twitter_followers'', JNull)]),
            (''links'', JDict []),
            (''market_data'', JDict [(''market_cap'', JDict [])])]"

definition default_project :: project_info where
  "default_project =
     \<lparr>coin_id = JStr ''FOO'', name = JStr ''Unknown'', symbol = JStr [],
      description = JStr ''No description available'',
      twitter_followers = JInt 0, telegram_users = JInt 0, homepage = JStr [],
      twitter = JStr [], telegram = JStr [], discord = JStr [], categories = JList [],
      contract_address = JStr [], market_cap = JInt 0\<rparr>"

section \<open>Properties of the scanner\<close>

subsection \<open>One candidate\<close>

lemma pbind_simps [simp]: "pbind (Inr a) f = f a" "pbind (Inl e) f = Inl e"
  by (simp_all add: pbind_def)

lemma pbind_Inr_iff: "pbind m f = Inr v \<longleftrightarrow> (\<exists>a. m = Inr a \<and> f a = Inr v)"
  by (cases m) simp_all

lemma scan_coin_cases [consumes 1, case_names raise_id raise_in seen absent raise_check unmatched matched]:
  assumes "scan_coin net w coin = (w', r)"
  obtains
    e where "dict_get coin ''id'' JNull = Inl e" "w' = w" "r = Inl e"
  | cid where "dict_get coin ''id'' JNull = Inr cid" "\<not> hashable cid" "w' = w" "r = Inl TypeError"
  | cid where "dict_get coin ''id'' JNull = Inr cid" "hashable cid"
      "hash_key cid |\<in>| sent_projects w" "w' = w" "r = Inr None"
  | cid where "dict_get coin ''id'' JNull = Inr cid" "hashable cid"
      "hash_key cid |\<notin>| sent_projects w"
      "\<not> truthy (details_of (net (DetailRequest cid # trace w)))"
      "w' = w\<lparr>trace := DetailRequest cid # trace w\<rparr>" "r = Inr None"
  | cid e where "dict_get coin ''id'' JNull = Inr cid" "hashable cid"
      "hash_key cid |\<notin>| sent_projects w"
      "truthy (details_of (net (DetailRequest cid # trace w)))"
      "check_details cid (details_of (net (DetailRequest cid # trace w))) = Inl e"
      "w' = w\<lparr>trace := DetailRequest cid # trace w\<rparr>" "r = Inl e"
  | cid where "dict_get coin ''id'' JNull = Inr cid" "hashable cid"
      "hash_key cid |\<notin>| sent_projects w"
      "truthy (details_of (net (DetailRequest cid # trace w)))"
      "check_details cid (details_of (net (DetailRequest cid # trace w))) = Inr None"
      "w' = w\<lparr>trace := Sleep (3 / 2) # DetailRequest cid # trace w\<rparr>" "r = Inr None"
  | cid p where "dict_get coin ''id'' JNull = Inr cid" "hashable cid"
      "hash_key cid |\<notin>| sent_projects w"
      "truthy (details_of (net (DetailRequest cid # trace w)))"
      "check_details cid (details_of (net (DetailRequest cid # trace w))) = Inr (Some p)"
      "w' = w\<lparr>sent_projects := finsert (hash_key cid) (sent_projects w),
               trace := Sleep (3 / 2) # Found (name p) # DetailRequest cid # trace w\<rparr>"
      "r = Inr (Some p)"
proof (cases "dict_get coin ''id'' JNull")
  case (Inl e)
  with assms have "w' = w" "r = Inl e" by (simp_all add: scan_coin_def)
  with Inl show ?thesis using that(1) by blast
next
  case (Inr cid)
  note cid = Inr
  show ?thesis
  proof (cases "hashable cid")
    case False
    with assms cid have "w' = w" "r = Inl TypeError"
      by (simp_all add: scan_coin_def py_in_def)
    with cid False show ?thesis using that(2) by blast
  next
    case True
    note hs = True
    show ?thesis
    proof (cases "hash_key cid |\<in>| sent_projects w")
      case True
      with assms cid hs have "w' = w" "r = Inr None"
        by (simp_all add: scan_coin_def py_in_def)
      with cid hs True show ?thesis using that(3) by blast
    next
      case False
      note fresh = False
      let ?d = "details_of (net (DetailRequest cid # trace w))"
      let ?w1 = "w\<lparr>trace := DetailRequest cid # trace w\<rparr>"
      show ?thesis
      proof (cases "truthy ?d")
        case False
        with assms cid hs fresh have "w' = ?w1" "r = Inr None"
          by (simp_all add: scan_coin_def py_in_def get_coin_details_def Let_def)
        with cid hs fresh False show ?thesis using that(4) by blast
      next
        case True
        note tr = True
        show ?thesis
        proof (cases "check_details cid ?d")
          case (Inl e)
          with assms cid hs fresh tr have "w' = ?w1" "r = Inl e"
            by (simp_all add: scan_coin_def py_in_def get_coin_details_def Let_def)
          with cid hs fresh tr Inl show ?thesis using that(5) by blast
        next
          case (Inr res)
          show ?thesis
          proof (cases res)
            case None
            with assms cid hs fresh tr Inr
            have "w' = w\<lparr>trace := Sleep (3 / 2) # DetailRequest cid # trace w\<rparr>" "r = Inr None"
              by (simp_all add: scan_coin_def py_in_def get_coin_details_def Let_def)
            with cid hs fresh tr Inr None show ?thesis using that(6) by blast
          next
            case (Some p)
            with assms cid hs fresh tr Inr
            have "w' = w\<lparr>sent_projects := finsert (hash_key cid) (sent_projects w),
                 trace := Sleep (3 / 2) # Found (name p) # DetailRequest cid # trace w\<rparr>"
              "r = Inr (Some p)"
              by (simp_all add: scan_coin_def py_in_def get_coin_details_def Let_def)
            with cid hs fresh tr Inr Some show ?thesis using that(7) by blast
          qed
        qed
      qed
    qed
  qed
qed


lemma matches_criteria_ints: "matches_criteria (JInt a) (JInt b) = Inr (a < 200 \<and> b < 50)"
  by (simp add: matches_criteria_def)

lemma build_project_info_fields:
  assumes "build_project_info cid d links tw tg = Inr p"
  shows "coin_id p = cid" "twitter_followers p = tw" "telegram_users p = tg"
    "dict_get d ''name'' (JStr ''Unknown'') = Inr (name p)"
    "pbind (dict_get d ''symbol'' (JStr [])) py_upper = Inr (symbol p)"
    "pbind (pbind (dict_get d ''description'' (JDict []))
        (\<lambda>x. dict_get x ''en'' (JStr ''No description available'')))
        (\<lambda>en. py_slice_to en 500) = Inr (description p)"
    "homepage_of links = Inr (homepage p)"
    "dict_get links ''twitter_screen_name'' (JStr []) = Inr (twitter p)"
    "dict_get links ''telegram_channel_identifier'' (JStr []) = Inr (telegram p)"
    "discord_of links = Inr (discord p)"
    "dict_get d ''categories'' (JList []) = Inr (categories p)"
    "dict_get d ''contract_address'' (JStr []) = Inr (contract_address p)"
    "pbind (pbind (dict_get d ''market_data'' (JDict []))
        (\<lambda>md. dict_get md ''market_cap'' (JDict [])))
        (\<lambda>mc. dict_get mc ''usd'' (JInt 0)) = Inr (market_cap p)"
  using assms unfolding build_project_info_def
  by (auto simp: pbind_Inr_iff)

lemma check_details_Some:
  assumes "check_details cid d = Inr (Some p)"
  obtains links tw tg where "social_metrics d = Inr (links, tw, tg)"
    "matches_criteria tw tg = Inr True" "build_project_info cid d links tw tg = Inr p"
  using assms unfolding check_details_def
  by (auto simp: pbind_Inr_iff split: if_splits)

lemma check_details_None:
  assumes "check_details cid d = Inr None"
  obtains links tw tg where "social_metrics d = Inr (links, tw, tg)"
    "matches_criteria tw tg = Inr False"
  using assms unfolding check_details_def
  by (auto simp: pbind_Inr_iff split: if_splits)


subsection \<open>The loop\<close>

lemma scan_loop_Cons:
  "scan_coin net w coin = (w', Inr r) \<Longrightarrow>
   scan_loop net w (coin # coins) acc =
     scan_loop net w' coins (acc @ (case r of None \<Rightarrow> [] | Some p \<Rightarrow> [p]))"
  by (cases r) simp_all

lemma scan_loop_keeps_acc:
  "scan_loop net w cs acc = (w', Inr ps) \<Longrightarrow> take (length acc) ps = acc"
proof (induction cs arbitrary: w acc)
  case Nil
  then show ?case by simp
next
  case (Cons coin cs)
  obtain w1 r where sc: "scan_coin net w coin = (w1, r)"
    by (cases "scan_coin net w coin")
  show ?case
  proof (cases r)
    case (Inl e)
    with sc Cons.prems show ?thesis by simp
  next
    case (Inr res)
    show ?thesis
    proof (cases res)
      case None
      with sc Inr Cons.prems have "scan_loop net w1 cs acc = (w', Inr ps)" by simp
      then show ?thesis by (rule Cons.IH)
    next
      case (Some p)
      with sc Inr Cons.prems have "scan_loop net w1 cs (acc @ [p]) = (w', Inr ps)" by simp
      then have "take (length (acc @ [p])) ps = acc @ [p]" by (rule Cons.IH)
      then have "take (length acc) (take (length (acc @ [p])) ps) = take (length acc) (acc @ [p])"
        by simp
      then show ?thesis by (simp add: min_def)
    qed
  qed
qed

text \<open>What one candidate does to the store and to the trace.\<close>

lemma scan_coin_sent_mono:
  "scan_coin net w coin = (w', r) \<Longrightarrow> sent_projects w |\<subseteq>| sent_projects w'"
  by (erule scan_coin_cases) auto

lemma scan_coin_requests:
  "scan_coin net w coin = (w', r) \<Longrightarrow> detail_requests w' \<le> detail_requests w + 1"
  by (erule scan_coin_cases) (auto simp: detail_requests_def)

lemma scan_coin_seen_untouched:
  assumes "scan_coin net w coin = (w', r)" and "hash_key c |\<in>| sent_projects w"
  shows "count_list (trace w') (DetailRequest c) = count_list (trace w) (DetailRequest c)"
    and "\<And>p. r = Inr (Some p) \<Longrightarrow> coin_id p \<noteq> c"
proof -
  show "count_list (trace w') (DetailRequest c) = count_list (trace w) (DetailRequest c)"
    using assms by (cases rule: scan_coin_cases) auto
  show "coin_id p \<noteq> c" if "r = Inr (Some p)" for p
    using assms(1)
  proof (cases rule: scan_coin_cases)
    case (matched cid q)
    from matched(5) have "coin_id q = cid"
      by (auto elim!: check_details_Some simp: build_project_info_fields)
    with matched that assms(2) show ?thesis by auto
  qed (use that in simp_all)
qed

lemma scan_coin_match_key:
  assumes "scan_coin net w coin = (w', Inr (Some p))"
  shows "project_key p |\<notin>| sent_projects w"
    and "sent_projects w' = finsert (project_key p) (sent_projects w)"
  using assms
  by (cases rule: scan_coin_cases;
      auto elim!: check_details_Some simp: build_project_info_fields project_key_def)+

lemma scan_coin_no_match_sent:
  assumes "scan_coin net w coin = (w', r)" and "\<And>p. r \<noteq> Inr (Some p)"
  shows "sent_projects w' = sent_projects w"
  using assms by (cases rule: scan_coin_cases) auto


lemma scan_loop_cases_induct [consumes 1, case_names Nil Raise Skip Match]:
  assumes run: "scan_loop net w cs acc = (w', r)"
    and nil: "\<And>w acc. P w [] acc w (Inr acc)"
    and raise: "\<And>w coin cs acc w1 e.
        scan_coin net w coin = (w1, Inl e) \<Longrightarrow> P w (coin # cs) acc w1 (Inl e)"
    and skip: "\<And>w coin cs acc w1 w' r.
        scan_coin net w coin = (w1, Inr None) \<Longrightarrow> scan_loop net w1 cs acc = (w', r) \<Longrightarrow>
        P w1 cs acc w' r \<Longrightarrow> P w (coin # cs) acc w' r"
    and match: "\<And>w coin cs acc w1 p w' r.
        scan_coin net w coin = (w1, Inr (Some p)) \<Longrightarrow>
        scan_loop net w1 cs (acc @ [p]) = (w', r) \<Longrightarrow>
        P w1 cs (acc @ [p]) w' r \<Longrightarrow> P w (coin # cs) acc w' r"
  shows "P w cs acc w' r"
  using run
proof (induction cs arbitrary: w acc)
  case Nil
  then show ?case using nil by auto
next
  case (Cons coin cs)
  obtain w1 res where sc: "scan_coin net w coin = (w1, res)"
    by (cases "scan_coin net w coin")
  show ?case
  proof (cases res)
    case (Inl e)
    with sc Cons.prems have "w' = w1" "r = Inl e" by simp_all
    with sc Inl raise show ?thesis by blast
  next
    case (Inr o1)
    show ?thesis
    proof (cases o1)
      case None
      with sc Inr Cons.prems have l: "scan_loop net w1 cs acc = (w', r)" by simp
      from skip [OF _ l Cons.IH [OF l]] sc Inr None show ?thesis by blast
    next
      case (Some p)
      with sc Inr Cons.prems have l: "scan_loop net w1 cs (acc @ [p]) = (w', r)" by simp
      from match [OF _ l Cons.IH [OF l]] sc Inr Some show ?thesis by blast
    qed
  qed
qed

lemma scan_loop_requests:
  "scan_loop net w cs acc = (w', r) \<Longrightarrow> detail_requests w' \<le> detail_requests w + length cs"
proof (induction rule: scan_loop_cases_induct)
  case (Nil w acc)
  then show ?case by simp
next
  case (Raise w coin cs acc w1 e)
  then show ?case using scan_coin_requests [of net w coin w1] by fastforce
next
  case (Skip w coin cs acc w1 w' r)
  then show ?case using scan_coin_requests [of net w coin w1] by fastforce
next
  case (Match w coin cs acc w1 p w' r)
  then show ?case using scan_coin_requests [of net w coin w1] by fastforce
qed


lemma scan_loop_sent_mono:
  "scan_loop net w cs acc = (w', r) \<Longrightarrow> sent_projects w |\<subseteq>| sent_projects w'"
  by (induction rule: scan_loop_cases_induct) (auto dest: scan_coin_sent_mono)

lemma scan_loop_seen_untouched:
  "scan_loop net w cs acc = (w', r) \<Longrightarrow> hash_key c |\<in>| sent_projects w \<Longrightarrow>
   count_list (trace w') (DetailRequest c) = count_list (trace w) (DetailRequest c) \<and>
   (\<forall>ps. r = Inr ps \<longrightarrow> c \<in> coin_id ` set ps \<longrightarrow> c \<in> coin_id ` set acc)"
proof (induction rule: scan_loop_cases_induct)
  case (Nil w acc)
  then show ?case by simp
next
  case (Raise w coin cs acc w1 e)
  then show ?case using scan_coin_seen_untouched(1) by simp
next
  case (Skip w coin cs acc w1 w' r)
  from Skip.hyps(1) Skip.prems have "hash_key c |\<in>| sent_projects w1"
    using scan_coin_sent_mono by blast
  with Skip show ?case using scan_coin_seen_untouched(1) by simp
next
  case (Match w coin cs acc w1 p w' r)
  from Match.hyps(1) Match.prems have in1: "hash_key c |\<in>| sent_projects w1"
    using scan_coin_sent_mono by blast
  from Match.hyps(1) Match.prems have "coin_id p \<noteq> c"
    using scan_coin_seen_untouched(2) by blast
  with Match in1 show ?case using scan_coin_seen_untouched(1) [OF Match.hyps(1) Match.prems]
    by auto
qed

lemma scan_loop_dedup_aux:
  "scan_loop net w cs acc = (w', r) \<Longrightarrow>
   \<forall>ps. r = Inr ps \<longrightarrow>
     (\<exists>new. ps = acc @ new \<and> distinct (map project_key new) \<and>
       (\<forall>p\<in>set new. project_key p |\<notin>| sent_projects w \<and>
                     project_key p |\<in>| sent_projects w'))"
proof (induction rule: scan_loop_cases_induct)
  case (Nil w acc)
  then show ?case by simp
next
  case (Raise w coin cs acc w1 e)
  then show ?case by simp
next
  case (Skip w coin cs acc w1 w' r)
  from Skip.hyps(1) have "sent_projects w1 = sent_projects w"
    by (rule scan_coin_no_match_sent) simp
  with Skip.IH show ?case by simp
next
  case (Match w coin cs acc w1 p w' r)
  have k: "project_key p |\<notin>| sent_projects w"
    "sent_projects w1 = finsert (project_key p) (sent_projects w)"
    using scan_coin_match_key [OF Match.hyps(1)] by simp_all
  have "sent_projects w1 |\<subseteq>| sent_projects w'"
    using Match.hyps(2) by (rule scan_loop_sent_mono)
  with k have in': "project_key p |\<in>| sent_projects w'" by auto
  show ?case
  proof (intro allI impI)
    fix ps assume "r = Inr ps"
    with Match.IH obtain new where new: "ps = (acc @ [p]) @ new"
      "distinct (map project_key new)"
      "\<forall>q\<in>set new. project_key q |\<notin>| sent_projects w1 \<and>
                   project_key q |\<in>| sent_projects w'"
      by blast
    with k in' have "ps = acc @ (p # new) \<and> distinct (map project_key (p # new)) \<and>
       (\<forall>q\<in>set (p # new). project_key q |\<notin>| sent_projects w \<and>
                     project_key q |\<in>| sent_projects w')"
      by auto
    then show "\<exists>new. ps = acc @ new \<and> distinct (map project_key new) \<and>
       (\<forall>p\<in>set new. project_key p |\<notin>| sent_projects w \<and>
                     project_key p |\<in>| sent_projects w')"
      by blast
  qed
qed

subsection \<open>One scan\<close>

lemma scan_for_projects_loop:
  "scan_for_projects net w =
     (case pbind (py_slice_to (snd (get_new_coins net w)) 20) py_iter of
        Inl e \<Rightarrow> (fst (get_new_coins net w), Inl e)
      | Inr cs \<Rightarrow> scan_loop net (fst (get_new_coins net w)) cs [])"
  by (cases "get_new_coins net w") (simp add: scan_for_projects_def split: sum.splits)

lemma get_new_coins_world [simp]:
  "sent_projects (fst (get_new_coins net w)) = sent_projects w"
  "trace (fst (get_new_coins net w)) = ListRequest # trace w"
  by (simp_all add: get_new_coins_def Let_def)

lemma candidates_at_most_20:
  "pbind (py_slice_to coins 20) py_iter = Inr cs \<Longrightarrow> length cs \<le> 20"
  by (cases coins) (auto simp: pbind_Inr_iff)

lemma scan_for_projects_requests:
  "detail_requests (fst (scan_for_projects net w)) \<le> detail_requests w + 20"
proof (cases "pbind (py_slice_to (snd (get_new_coins net w)) 20) py_iter")
  case (Inl e)
  then show ?thesis by (simp add: scan_for_projects_loop detail_requests_def)
next
  case (Inr cs)
  obtain w' r where l: "scan_loop net (fst (get_new_coins net w)) cs [] = (w', r)"
    by (cases "scan_loop net (fst (get_new_coins net w)) cs []")
  from scan_loop_requests [OF l] candidates_at_most_20 [OF Inr]
  have "detail_requests w' \<le> detail_requests w + 20"
    by (simp add: detail_requests_def)
  with Inr l show ?thesis by (simp add: scan_for_projects_loop)
qed


lemma scan_for_projects_sent_mono:
  "scan_for_projects net w = (w', r) \<Longrightarrow> sent_projects w |\<subseteq>| sent_projects w'"
proof (cases "pbind (py_slice_to (snd (get_new_coins net w)) 20) py_iter")
  case (Inl e)
  assume "scan_for_projects net w = (w', r)"
  with Inl have "w' = fst (get_new_coins net w)" by (simp add: scan_for_projects_loop)
  then show ?thesis by simp
next
  case (Inr cs)
  assume "scan_for_projects net w = (w', r)"
  with Inr have "scan_loop net (fst (get_new_coins net w)) cs [] = (w', r)"
    by (simp add: scan_for_projects_loop)
  from scan_loop_sent_mono [OF this] show ?thesis by simp
qed

lemma scan_for_projects_dedup:
  assumes "scan_for_projects net w = (w', Inr ps)"
  shows "distinct (map project_key ps)"
    and "\<forall>p\<in>set ps. project_key p |\<notin>| sent_projects w \<and>
                      project_key p |\<in>| sent_projects w'"
proof -
  from assms obtain cs where "scan_loop net (fst (get_new_coins net w)) cs [] = (w', Inr ps)"
    by (auto simp: scan_for_projects_loop split: sum.splits)
  from scan_loop_dedup_aux [OF this]
  show "distinct (map project_key ps)"
    and "\<forall>p\<in>set ps. project_key p |\<notin>| sent_projects w \<and>
                      project_key p |\<in>| sent_projects w'"
    by auto
qed

lemma scan_for_projects_seen_untouched:
  assumes "scan_for_projects net w = (w', r)" and "hash_key c |\<in>| sent_projects w"
  shows "count_list (trace w') (DetailRequest c) = count_list (trace w) (DetailRequest c)"
    and "\<And>ps. r = Inr ps \<Longrightarrow> c \<notin> coin_id ` set ps"
proof -
  show "count_list (trace w') (DetailRequest c) = count_list (trace w) (DetailRequest c)"
  proof (cases "pbind (py_slice_to (snd (get_new_coins net w)) 20) py_iter")
    case (Inl e)
    with assms(1) have "w' = fst (get_new_coins net w)" by (simp add: scan_for_projects_loop)
    then show ?thesis by simp
  next
    case (Inr cs)
    with assms(1) have "scan_loop net (fst (get_new_coins net w)) cs [] = (w', r)"
      by (simp add: scan_for_projects_loop)
    from scan_loop_seen_untouched [OF this, of c] assms(2) show ?thesis by simp
  qed
  show "c \<notin> coin_id ` set ps" if "r = Inr ps" for ps
  proof -
    from assms(1) that obtain cs where
      "scan_loop net (fst (get_new_coins net w)) cs [] = (w', Inr ps)"
      by (auto simp: scan_for_projects_loop split: sum.splits)
    from scan_loop_seen_untouched [OF this, of c] assms(2) show ?thesis by simp
  qed
qed

lemma scan_loop_results_checked:
  "scan_loop net w cs acc = (w', r) \<Longrightarrow>
   \<forall>ps. r = Inr ps \<longrightarrow>
     (\<forall>p\<in>set ps. p \<in> set acc \<or> (\<exists>cid d. check_details cid d = Inr (Some p)))"
proof (induction rule: scan_loop_cases_induct)
  case (Match w coin cs acc w1 p w' r)
  from Match.hyps(1) have p: "\<exists>cid d. check_details cid d = Inr (Some p)"
    by (cases rule: scan_coin_cases) auto
  show ?case
  proof (intro allI impI ballI)
    fix ps q
    assume "r = Inr ps" "q \<in> set ps"
    with Match.IH have "q \<in> set (acc @ [p]) \<or> (\<exists>cid d. check_details cid d = Inr (Some q))"
      by blast
    with p show "q \<in> set acc \<or> (\<exists>cid d. check_details cid d = Inr (Some q))"
      by auto
  qed
qed simp_all

lemma check_details_description:
  assumes "check_details cid d = Inr (Some p)"
  shows "\<exists>n. py_len (description p) = Inr n \<and> n \<le> 500"
proof -
  from assms obtain links tw tg where "build_project_info cid d links tw tg = Inr p"
    by (rule check_details_Some)
  from build_project_info_fields(6) [OF this]
  obtain en where en: "py_slice_to en 500 = Inr (description p)"
    by (auto simp: pbind_Inr_iff)
  show ?thesis
  proof (cases en)
    case (JStr s)
    with en have "description p = JStr (take 500 s)" by simp
    then show ?thesis by simp
  next
    case (JList xs)
    with en have "description p = JList (take 500 xs)" by simp
    then show ?thesis by simp
  qed (use en in simp_all)
qed

subsection \<open>Scan after scan\<close>

lemma run_scans_Suc:
  "scan_for_projects net w = (w1, r) \<Longrightarrow> run_scans net w1 n = (w2, rs) \<Longrightarrow>
   run_scans net w (Suc n) = (w2, (case r of Inl e \<Rightarrow> [] | Inr ps \<Rightarrow> ps) @ rs)"
  by simp


lemma run_scans_dedup:
  "distinct (map project_key (snd (run_scans net w n))) \<and>
   (\<forall>p\<in>set (snd (run_scans net w n)).
      project_key p |\<notin>| sent_projects w \<and>
      project_key p |\<in>| sent_projects (fst (run_scans net w n))) \<and>
   sent_projects w |\<subseteq>| sent_projects (fst (run_scans net w n))"
proof (induction n arbitrary: w)
  case 0
  then show ?case by simp
next
  case (Suc n)
  obtain w1 r where s: "scan_for_projects net w = (w1, r)"
    by (cases "scan_for_projects net w")
  obtain w2 rs where rr: "run_scans net w1 n = (w2, rs)"
    by (cases "run_scans net w1 n")
  define ps where "ps = (case r of Inl e \<Rightarrow> [] | Inr ps \<Rightarrow> ps)"
  have run: "run_scans net w (Suc n) = (w2, ps @ rs)"
    using run_scans_Suc [OF s rr] by (simp add: ps_def)
  from Suc.IH [of w1] rr
  have rs: "distinct (map project_key rs)"
    and rs_keys: "\<forall>p\<in>set rs. project_key p |\<notin>| sent_projects w1 \<and>
                               project_key p |\<in>| sent_projects w2"
    and mono2: "sent_projects w1 |\<subseteq>| sent_projects w2"
    by simp_all
  have mono1: "sent_projects w |\<subseteq>| sent_projects w1"
    using s by (rule scan_for_projects_sent_mono)
  have ps: "distinct (map project_key ps) \<and>
     (\<forall>p\<in>set ps. project_key p |\<notin>| sent_projects w \<and>
                    project_key p |\<in>| sent_projects w1)"
  proof (cases r)
    case (Inl e)
    then show ?thesis by (simp add: ps_def)
  next
    case (Inr qs)
    with s have "scan_for_projects net w = (w1, Inr qs)" by simp
    from scan_for_projects_dedup [OF this] Inr show ?thesis by (simp add: ps_def)
  qed
  have disj: "set (map project_key ps) \<inter> set (map project_key rs) = {}"
    using ps rs_keys by auto
  have d: "distinct (map project_key (ps @ rs))"
    using ps rs disj by simp
  have k: "\<forall>p\<in>set (ps @ rs). project_key p |\<notin>| sent_projects w \<and>
                               project_key p |\<in>| sent_projects w2"
    using ps rs_keys mono1 mono2 by auto
  from d k mono1 mono2 run show ?case by auto
qed

section \<open>The claims\<close>

text \<open>Unfolding the scanner on a concrete listing and network.\<close>

lemmas scan_unfold =
  scan_for_projects_def get_new_coins_def new_coins_of_def ok_list_def
  scan_coin_def coin_of_def initial_world_def py_in_def get_coin_details_def
  net_table_def details_of_def details_social_def check_details_def social_metrics_def
  py_or_def matches_criteria_def build_project_info_def homepage_of_def discord_of_def
  py_str_def upper_char_def lower_char_def project_of_def net_one_def world_seen_def

subsection \<open>C1: the match predicate\<close>

text \<open>
  C1. A candidate that is not in the store, whose detail record is one the scan does not
  treat as absent (it passes \<^verbatim>\<open>if not details\<close>), whose two metrics are integers and
  whose processing raises no exception, is emitted if and only if
  \<open>twitter_followers < 200\<close> and \<open>telegram_users < 50\<close>, both strict; the emitted record
  carries the identifier and the two metrics, and the loop goes on with the record appended.
\<close>

theorem match_iff_both_below_thresholds:
  assumes "dict_get coin ''id'' JNull = Inr cid"
    and "py_in cid (sent_projects w) = Inr False"
    and "truthy (snd (get_coin_details net w cid))"
    and "social_metrics (snd (get_coin_details net w cid)) = Inr (links, JInt tw, JInt tg)"
    and "snd (scan_coin net w coin) = Inr r"
  shows "((\<exists>p. r = Some p \<and> coin_id p = cid \<and> twitter_followers p = JInt tw
            \<and> telegram_users p = JInt tg) \<longleftrightarrow> (tw < 200 \<and> tg < 50))
    \<and> scan_loop net w (coin # coins) acc =
        scan_loop net (fst (scan_coin net w coin)) coins
          (acc @ (case r of None \<Rightarrow> [] | Some p \<Rightarrow> [p]))"
proof -
  let ?d = "details_of (net (DetailRequest cid # trace w))"
  have d: "snd (get_coin_details net w cid) = ?d"
    by (simp add: get_coin_details_def Let_def)
  from assms(2) have hs: "hashable cid" and fresh: "hash_key cid |\<notin>| sent_projects w"
    by (auto simp: py_in_def split: if_splits)
  obtain w' where sc: "scan_coin net w coin = (w', Inr r)"
    using assms(5) by (cases "scan_coin net w coin") auto
  have sm: "social_metrics ?d = Inr (links, JInt tw, JInt tg)"
    using assms(4) d by simp
  have iff: "(\<exists>p. r = Some p \<and> coin_id p = cid \<and> twitter_followers p = JInt tw
            \<and> telegram_users p = JInt tg) \<longleftrightarrow> (tw < 200 \<and> tg < 50)"
    using sc
  proof (cases rule: scan_coin_cases)
    case (seen c)
    with assms(1) fresh show ?thesis by simp
  next
    case (absent c)
    with assms(1,3) d show ?thesis by simp
  next
    case (unmatched c)
    with assms(1) have "check_details cid ?d = Inr None" by simp
    then have "matches_criteria (JInt tw) (JInt tg) = Inr False"
      using sm by (auto elim!: check_details_None)
    with unmatched show ?thesis by (simp add: matches_criteria_ints)
  next
    case (matched c p)
    with assms(1) have cd: "check_details cid ?d = Inr (Some p)" by simp
    then obtain l a b where *: "social_metrics ?d = Inr (l, a, b)"
      "matches_criteria a b = Inr True" "build_project_info cid ?d l a b = Inr p"
      by (rule check_details_Some)
    with sm have "a = JInt tw" "b = JInt tg" by simp_all
    with * matched show ?thesis
      by (simp add: matches_criteria_ints build_project_info_fields)
  qed simp_all
  have "scan_loop net w (coin # coins) acc =
        scan_loop net (fst (scan_coin net w coin)) coins
          (acc @ (case r of None \<Rightarrow> [] | Some p \<Rightarrow> [p]))"
    using sc by (cases r) simp_all
  with iff show ?thesis by blast
qed

text \<open>At 199 followers and 49 users the candidate is emitted.\<close>

theorem match_iff_both_below_thresholds_witness:
  "dict_get (coin_of ''FOO'') ''id'' JNull = Inr (JStr ''FOO'')
   \<and> py_in (JStr ''FOO'') (sent_projects initial_world) = Inr False
   \<and> truthy (snd (get_coin_details (net_one (details_social ''FOO'' 199 49)) initial_world
         (JStr ''FOO'')))
   \<and> social_metrics (snd (get_coin_details (net_one (details_social ''FOO'' 199 49))
         initial_world (JStr ''FOO''))) = Inr (JDict [], JInt 199, JInt 49)
   \<and> snd (scan_coin (net_one (details_social ''FOO'' 199 49)) initial_world (coin_of ''FOO''))
       = Inr (Some (project_of ''FOO'' 199 49))
   \<and> (\<exists>p. Some (project_of ''FOO'' 199 49) = Some p \<and> coin_id p = JStr ''FOO''
          \<and> twitter_followers p = JInt 199 \<and> telegram_users p = JInt 49)"
proof -
  let ?net = "net_one (details_social ''FOO'' 199 49)"
  have h1: "dict_get (coin_of ''FOO'') ''id'' JNull = Inr (JStr ''FOO'')"
    by (simp add: coin_of_def)
  have h2: "py_in (JStr ''FOO'') (sent_projects initial_world) = Inr False"
    by (simp add: py_in_def initial_world_def)
  have h3: "truthy (snd (get_coin_details ?net initial_world (JStr ''FOO'')))"
    by (simp add: scan_unfold)
  have h4: "social_metrics (snd (get_coin_details ?net initial_world (JStr ''FOO'')))
      = Inr (JDict [], JInt 199, JInt 49)"
    by (simp add: scan_unfold)
  have h5: "snd (scan_coin ?net initial_world (coin_of ''FOO''))
      = Inr (Some (project_of ''FOO'' 199 49))"
    by (simp add: scan_unfold)
  from match_iff_both_below_thresholds [OF h1 h2 h3 h4 h5]
  have "\<exists>p. Some (project_of ''FOO'' 199 49) = Some p \<and> coin_id p = JStr ''FOO''
          \<and> twitter_followers p = JInt 199 \<and> telegram_users p = JInt 49"
    by simp
  with h1 h2 h3 h4 h5 show ?thesis by blast
qed

text \<open>At 199 and 50, and at 200, it is not.\<close>

lemma threshold_examples:
  "snd (scan_coin (net_one (details_social ''FOO'' 199 50)) initial_world (coin_of ''FOO''))
     = Inr None"
  "snd (scan_coin (net_one (details_social ''FOO'' 200 0)) initial_world (coin_of ''FOO''))
     = Inr None"
  "snd (scan_coin (net_one (details_social ''FOO'' 199 49)) initial_world (coin_of ''FOO''))
     = Inr (Some (project_of ''FOO'' 199 49))"
  by (simp_all add: scan_unfold)

text \<open>
  A detail request answered with status 200 and the empty object \<^verbatim>\<open>{}\<close>: the metrics
  default to 0 and 0, below both thresholds, but \<^verbatim>\<open>not details\<close> holds of the empty
  dictionary and the candidate is skipped.
\<close>

theorem empty_detail_record_not_emitted:
  "details_of (net_one (JDict []) (DetailRequest (JStr ''FOO'') # trace initial_world)) = JDict []
   \<and> social_metrics (JDict []) = Inr (JDict [], JInt 0, JInt 0)
   \<and> matches_criteria (JInt 0) (JInt 0) = Inr True
   \<and> scan_for_projects (net_one (JDict [])) initial_world =
       (\<lparr>sent_projects = {||}, trace = [DetailRequest (JStr ''FOO''), ListRequest]\<rparr>, Inr [])"
  by (simp add: scan_unfold)

subsection \<open>C2: identifiers already in the store\<close>

text \<open>
  C2. A candidate whose identifier is in the Dedup Store when the scan examines it leaves the
  world as it is (no request) and yields no record; over a whole scan, the number of detail
  requests for an identifier that was in the store does not change, and no returned record
  carries it.
\<close>

theorem seen_identifier_skipped_without_fetch:
  assumes "hash_key cid |\<in>| sent_projects w"
  shows "(dict_get coin ''id'' JNull = Inr cid \<and> hashable cid
            \<longrightarrow> scan_coin net w coin = (w, Inr None))
    \<and> count_list (trace (fst (scan_for_projects net w))) (DetailRequest cid)
        = count_list (trace w) (DetailRequest cid)
    \<and> (\<forall>ps. snd (scan_for_projects net w) = Inr ps \<longrightarrow> cid \<notin> coin_id ` set ps)"
proof -
  have a: "scan_coin net w coin = (w, Inr None)"
    if "dict_get coin ''id'' JNull = Inr cid" "hashable cid"
    using that assms by (simp add: scan_coin_def py_in_def)
  obtain w' r where s: "scan_for_projects net w = (w', r)"
    by (cases "scan_for_projects net w")
  from scan_for_projects_seen_untouched [OF s assms] s a show ?thesis by simp
qed

theorem seen_identifier_skipped_without_fetch_witness:
  "hash_key (JStr ''FOO'') |\<in>| sent_projects (world_seen [JStr ''FOO''])
   \<and> dict_get (coin_of ''FOO'') ''id'' JNull = Inr (JStr ''FOO'')
   \<and> hashable (JStr ''FOO'')
   \<and> scan_coin (net_one (details_social ''FOO'' 10 5)) (world_seen [JStr ''FOO'']) (coin_of ''FOO'')
       = (world_seen [JStr ''FOO''], Inr None)
   \<and> count_list (trace (fst (scan_for_projects (net_one (details_social ''FOO'' 10 5))
         (world_seen [JStr ''FOO''])))) (DetailRequest (JStr ''FOO'')) = 0
   \<and> snd (scan_for_projects (net_one (details_social ''FOO'' 10 5)) (world_seen [JStr ''FOO'']))
       = Inr []"
proof -
  have h: "hash_key (JStr ''FOO'') |\<in>| sent_projects (world_seen [JStr ''FOO''])"
    by (simp add: world_seen_def)
  have i: "dict_get (coin_of ''FOO'') ''id'' JNull = Inr (JStr ''FOO'')" "hashable (JStr ''FOO'')"
    by (simp_all add: coin_of_def)
  have r: "snd (scan_for_projects (net_one (details_social ''FOO'' 10 5))
      (world_seen [JStr ''FOO''])) = Inr []"
    by (simp add: scan_unfold)
  from seen_identifier_skipped_without_fetch [OF h, of "coin_of ''FOO''"
      "net_one (details_social ''FOO'' 10 5)"] i
  have "scan_coin (net_one (details_social ''FOO'' 10 5)) (world_seen [JStr ''FOO''])
      (coin_of ''FOO'') = (world_seen [JStr ''FOO''], Inr None)"
    and "count_list (trace (fst (scan_for_projects (net_one (details_social ''FOO'' 10 5))
         (world_seen [JStr ''FOO''])))) (DetailRequest (JStr ''FOO'')) = 0"
    by (simp_all add: world_seen_def)
  with h i r show ?thesis by blast
qed

subsection \<open>C3: the pacing delay\<close>

text \<open>
  C3. A candidate whose detail record was fetched and is present, matched or not, is followed
  by the delay of 1.5 time-units (the newest event of the trace when the loop turns to the
  next candidate); a candidate skipped as already seen makes no request and gets no delay:
  the \<^verbatim>\<open>continue\<close> of line 98 leaves the body before line 136.
\<close>

theorem pacing_delay_follows_fetched_detail:
  "(dict_get coin ''id'' JNull = Inr cid \<and> py_in cid (sent_projects w) = Inr False
      \<and> truthy (snd (get_coin_details net w cid)) \<and> scan_coin net w coin = (w', Inr r)
     \<longrightarrow> trace w' = Sleep (3 / 2) # (case r of None \<Rightarrow> [] | Some p \<Rightarrow> [Found (name p)])
                      @ DetailRequest cid # trace w
         \<and> scan_loop net w (coin # coins) acc =
             scan_loop net w' coins (acc @ (case r of None \<Rightarrow> [] | Some p \<Rightarrow> [p])))
   \<and> (dict_get coin ''id'' JNull = Inr cid \<and> py_in cid (sent_projects w) = Inr True
     \<longrightarrow> scan_coin net w coin = (w, Inr None)
         \<and> scan_loop net w (coin # coins) acc = scan_loop net w coins acc)"
proof (intro conjI impI)
  assume a: "dict_get coin ''id'' JNull = Inr cid \<and> py_in cid (sent_projects w) = Inr False
      \<and> truthy (snd (get_coin_details net w cid)) \<and> scan_coin net w coin = (w', Inr r)"
  then have fresh: "hash_key cid |\<notin>| sent_projects w"
    and tr: "truthy (details_of (net (DetailRequest cid # trace w)))"
    and sc: "scan_coin net w coin = (w', Inr r)"
    by (auto simp: py_in_def get_coin_details_def Let_def split: if_splits)
  from sc show "trace w' = Sleep (3 / 2) # (case r of None \<Rightarrow> [] | Some p \<Rightarrow> [Found (name p)])
                      @ DetailRequest cid # trace w"
    using a fresh tr by (cases rule: scan_coin_cases) auto
  from sc show "scan_loop net w (coin # coins) acc =
             scan_loop net w' coins (acc @ (case r of None \<Rightarrow> [] | Some p \<Rightarrow> [p]))"
    by (rule scan_loop_Cons)
next
  assume a: "dict_get coin ''id'' JNull = Inr cid \<and> py_in cid (sent_projects w) = Inr True"
  then show sc: "scan_coin net w coin = (w, Inr None)"
    by (simp add: scan_coin_def)
  then show "scan_loop net w (coin # coins) acc = scan_loop net w coins acc"
    by simp
qed

theorem pacing_delay_follows_fetched_detail_witness:
  "dict_get (coin_of ''FOO'') ''id'' JNull = Inr (JStr ''FOO'')
   \<and> py_in (JStr ''FOO'') (sent_projects initial_world) = Inr False
   \<and> truthy (snd (get_coin_details (net_one (details_social ''FOO'' 10 5)) initial_world
         (JStr ''FOO'')))
   \<and> scan_coin (net_one (details_social ''FOO'' 10 5)) initial_world (coin_of ''FOO'')
       = (\<lparr>sent_projects = {|JStr ''FOO''|},
           trace = [Sleep (3 / 2), Found (JStr ''FOO''), DetailRequest (JStr ''FOO'')]\<rparr>,
          Inr (Some (project_of ''FOO'' 10 5)))
   \<and> py_in (JStr ''FOO'') (sent_projects (world_seen [JStr ''FOO''])) = Inr True
   \<and> scan_coin (net_one (details_social ''FOO'' 10 5)) (world_seen [JStr ''FOO''])
         (coin_of ''FOO'') = (world_seen [JStr ''FOO''], Inr None)"
proof -
  let ?net = "net_one (details_social ''FOO'' 10 5)"
  let ?w' = "\<lparr>sent_projects = {|JStr ''FOO''|},
           trace = [Sleep (3 / 2), Found (JStr ''FOO''), DetailRequest (JStr ''FOO'')]\<rparr>"
  have h1: "dict_get (coin_of ''FOO'') ''id'' JNull = Inr (JStr ''FOO'')"
    by (simp add: coin_of_def)
  have h2: "py_in (JStr ''FOO'') (sent_projects initial_world) = Inr False"
    by (simp add: py_in_def initial_world_def)
  have h3: "truthy (snd (get_coin_details ?net initial_world (JStr ''FOO'')))"
    by (simp add: scan_unfold)
  have h4: "scan_coin ?net initial_world (coin_of ''FOO'')
      = (?w', Inr (Some (project_of ''FOO'' 10 5)))"
    by (simp add: scan_unfold)
  have h5: "py_in (JStr ''FOO'') (sent_projects (world_seen [JStr ''FOO''])) = Inr True"
    by (simp add: py_in_def world_seen_def)
  note main = pacing_delay_follows_fetched_detail
  from main [of "coin_of ''FOO''" "JStr ''FOO''" initial_world ?net ?w'
      "Some (project_of ''FOO'' 10 5)"] h1 h2 h3 h4
  have "trace ?w' = Sleep (3 / 2) # [Found (name (project_of ''FOO'' 10 5))]
      @ DetailRequest (JStr ''FOO'') # trace initial_world"
    by simp
  moreover from main [of "coin_of ''FOO''" "JStr ''FOO''" "world_seen [JStr ''FOO'']" ?net] h1 h5
  have "scan_coin ?net (world_seen [JStr ''FOO'']) (coin_of ''FOO'')
      = (world_seen [JStr ''FOO''], Inr None)"
    by simp
  ultimately show ?thesis using h1 h2 h3 h4 h5 by blast
qed

text \<open>One candidate, already in the store: the scan considers it and never sleeps.\<close>

theorem seen_candidate_gets_no_delay:
  "scan_for_projects (net_one (details_social ''FOO'' 10 5)) (world_seen [JStr ''FOO''])
     = (\<lparr>sent_projects = {|JStr ''FOO''|}, trace = [ListRequest]\<rparr>, Inr [])
   \<and> filter is_sleep (trace (fst (scan_for_projects (net_one (details_social ''FOO'' 10 5))
         (world_seen [JStr ''FOO''])))) = []"
  by (simp add: scan_unfold)

subsection \<open>C5: a detail record that is absent\<close>

text \<open>
  C5. A candidate whose detail fetch returns nothing is skipped: only the request is added to
  the trace, the store is unchanged (the identifier is still not in it, so a later scan
  fetches it again), the loop goes on with the next candidate and the same accumulated
  matches, and whatever the loop returns starts with the matches accumulated so far.
\<close>

theorem absent_detail_skipped_and_still_eligible:
  assumes "dict_get coin ''id'' JNull = Inr cid"
    and "py_in cid (sent_projects w) = Inr False"
    and "\<not> truthy (snd (get_coin_details net w cid))"
  shows "scan_coin net w coin = (w\<lparr>trace := DetailRequest cid # trace w\<rparr>, Inr None)
    \<and> py_in cid (sent_projects (fst (scan_coin net w coin))) = Inr False
    \<and> scan_loop net w (coin # coins) acc =
        scan_loop net (w\<lparr>trace := DetailRequest cid # trace w\<rparr>) coins acc
    \<and> (\<forall>w' ps. scan_loop net w (coin # coins) acc = (w', Inr ps)
          \<longrightarrow> take (length acc) ps = acc)"
proof -
  have sc: "scan_coin net w coin = (w\<lparr>trace := DetailRequest cid # trace w\<rparr>, Inr None)"
    using assms
    by (cases "get_coin_details net w cid")
      (auto simp: scan_coin_def get_coin_details_def Let_def)
  moreover from sc assms(2)
  have "py_in cid (sent_projects (fst (scan_coin net w coin))) = Inr False" by simp
  moreover from sc have "scan_loop net w (coin # coins) acc =
        scan_loop net (w\<lparr>trace := DetailRequest cid # trace w\<rparr>) coins acc" by simp
  moreover have "\<forall>w' ps. scan_loop net w (coin # coins) acc = (w', Inr ps)
          \<longrightarrow> take (length acc) ps = acc"
    using scan_loop_keeps_acc by blast
  ultimately show ?thesis by blast
qed

theorem absent_detail_skipped_and_still_eligible_witness:
  "dict_get (coin_of ''FOO'') ''id'' JNull = Inr (JStr ''FOO'')
   \<and> py_in (JStr ''FOO'') (sent_projects initial_world) = Inr False
   \<and> \<not> truthy (snd (get_coin_details net_missing_first initial_world (JStr ''FOO'')))
   \<and> scan_coin net_missing_first initial_world (coin_of ''FOO'')
       = (initial_world\<lparr>trace := DetailRequest (JStr ''FOO'') # trace initial_world\<rparr>, Inr None)
   \<and> scan_loop net_missing_first initial_world [coin_of ''FOO'', coin_of ''BAR'']
         [project_of ''QUX'' 1 1]
       = (\<lparr>sent_projects = {|JStr ''BAR''|},
           trace = [Sleep (3 / 2), Found (JStr ''BAR''), DetailRequest (JStr ''BAR''),
                    DetailRequest (JStr ''FOO'')]\<rparr>,
          Inr [project_of ''QUX'' 1 1, project_of ''BAR'' 10 5])
   \<and> take (length [project_of ''QUX'' 1 1]) [project_of ''QUX'' 1 1, project_of ''BAR'' 10 5]
       = [project_of ''QUX'' 1 1]"
proof -
  have h1: "dict_get (coin_of ''FOO'') ''id'' JNull = Inr (JStr ''FOO'')"
    by (simp add: coin_of_def)
  have h2: "py_in (JStr ''FOO'') (sent_projects initial_world) = Inr False"
    by (simp add: py_in_def initial_world_def)
  have h3: "\<not> truthy (snd (get_coin_details net_missing_first initial_world (JStr ''FOO'')))"
    by (simp add: scan_unfold net_missing_first_def)
  have run: "scan_loop net_missing_first initial_world [coin_of ''FOO'', coin_of ''BAR'']
         [project_of ''QUX'' 1 1]
       = (\<lparr>sent_projects = {|JStr ''BAR''|},
           trace = [Sleep (3 / 2), Found (JStr ''BAR''), DetailRequest (JStr ''BAR''),
                    DetailRequest (JStr ''FOO'')]\<rparr>,
          Inr [project_of ''QUX'' 1 1, project_of ''BAR'' 10 5])"
    by (simp add: scan_unfold net_missing_first_def)
  from absent_detail_skipped_and_still_eligible [OF h1 h2 h3,
      of "[coin_of ''BAR'']" "[project_of ''QUX'' 1 1]"] run
  have "scan_coin net_missing_first initial_world (coin_of ''FOO'')
       = (initial_world\<lparr>trace := DetailRequest (JStr ''FOO'') # trace initial_world\<rparr>, Inr None)"
    and "take (length [project_of ''QUX'' 1 1])
          [project_of ''QUX'' 1 1, project_of ''BAR'' 10 5] = [project_of ''QUX'' 1 1]"
    by simp_all
  with h1 h2 h3 run show ?thesis by blast
qed

subsection \<open>C6: a listing request that fails\<close>

text \<open>
  C6. On a transport failure or a status other than 200 the listing operation makes its one
  request and returns the empty list, and the scan returns no match with no further request;
  the same holds of every scan whose listing is empty.
\<close>

theorem failed_listing_yields_empty_scan:
  assumes "net (ListRequest # trace w) = Transport_failure
      \<or> (\<exists>status body. net (ListRequest # trace w) = Response status body \<and> status \<noteq> 200)"
  shows "get_new_coins net w = (w\<lparr>trace := ListRequest # trace w\<rparr>, JList [])
    \<and> scan_for_projects net w = (w\<lparr>trace := ListRequest # trace w\<rparr>, Inr [])
    \<and> (snd (get_new_coins net' w1) = JList []
          \<longrightarrow> scan_for_projects net' w1 = (w1\<lparr>trace := ListRequest # trace w1\<rparr>, Inr []))"
proof -
  have g: "get_new_coins net w = (w\<lparr>trace := ListRequest # trace w\<rparr>, JList [])"
    using assms by (auto simp: get_new_coins_def new_coins_of_def Let_def)
  have e: "scan_for_projects n v = (v\<lparr>trace := ListRequest # trace v\<rparr>, Inr [])"
    if "snd (get_new_coins n v) = JList []" for n v
  proof -
    have "fst (get_new_coins n v) = v\<lparr>trace := ListRequest # trace v\<rparr>"
      by (simp add: get_new_coins_def Let_def)
    with that show ?thesis by (simp add: scan_for_projects_loop)
  qed
  from g have "snd (get_new_coins net w) = JList []" by simp
  from e [OF this] g e show ?thesis by blast
qed

theorem failed_listing_yields_empty_scan_witness:
  "net_table (Response 500 None) [] (ListRequest # trace initial_world) = Response 500 None
   \<and> (500::nat) \<noteq> 200
   \<and> get_new_coins (net_table (Response 500 None) []) initial_world
       = (initial_world\<lparr>trace := ListRequest # trace initial_world\<rparr>, JList [])
   \<and> scan_for_projects (net_table (Response 500 None) []) initial_world
       = (initial_world\<lparr>trace := ListRequest # trace initial_world\<rparr>, Inr [])
   \<and> snd (get_new_coins (net_table Transport_failure []) initial_world) = JList []
   \<and> scan_for_projects (net_table Transport_failure []) initial_world
       = (initial_world\<lparr>trace := ListRequest # trace initial_world\<rparr>, Inr [])"
proof -
  let ?net = "net_table (Response 500 None) []"
  have r: "?net (ListRequest # trace initial_world) = Response 500 None"
    by (simp add: net_table_def)
  then have h: "?net (ListRequest # trace initial_world) = Transport_failure
      \<or> (\<exists>status body. ?net (ListRequest # trace initial_world) = Response status body
            \<and> status \<noteq> 200)"
    by simp
  have h2: "snd (get_new_coins (net_table Transport_failure []) initial_world) = JList []"
    by (simp add: get_new_coins_def new_coins_of_def net_table_def)
  from failed_listing_yields_empty_scan [of ?net initial_world
      "net_table Transport_failure []" initial_world] h r h2
  show ?thesis by simp
qed

subsection \<open>C4: fields that the detail record does not have\<close>

lemma social_metrics_Inr:
  assumes "social_metrics d = Inr (links, tw, tg)"
  obtains cd a b where "dict_get d ''community_data'' (JDict []) = Inr cd"
    "dict_get d ''links'' (JDict []) = Inr links"
    "dict_get cd ''twitter_followers'' (JInt 0) = Inr a"
    "dict_get cd ''telegram_channel_user_count'' (JInt 0) = Inr b"
    "tw = py_or a (JInt 0)" "tg = py_or b (JInt 0)"
  using assms unfolding social_metrics_def by (auto simp: pbind_Inr_iff)

lemma homepage_of_absent:
  "map_of l ''homepage'' = None \<Longrightarrow> homepage_of (JDict l) = Inr (JStr [])"
  by (simp add: homepage_of_def)

lemma discord_of_absent:
  "map_of l ''chat_url'' = None \<Longrightarrow> discord_of (JDict l) = Inr (JStr [])"
  by (simp add: discord_of_def py_str_def)

lemma check_details_bare:
  "check_details (JStr ''FOO'') details_bare = Inr (Some default_project)"
  by (simp add: scan_unfold details_bare_def default_project_def)

lemma check_details_hollow:
  "check_details (JStr ''FOO'') details_hollow = Inr (Some default_project)"
  by (simp add: scan_unfold details_hollow_def default_project_def)

text \<open>
  C4. In the record built from a detail response, a field that the payload does not have gets
  its default: 0 for the two counts and the market capitalisation, the empty string for the
  symbol, the links and the contract address, the empty list for the categories, and the
  placeholders \<^verbatim>\<open>Unknown\<close> for the name and \<^verbatim>\<open>No description available\<close> for the
  description; a count that is null becomes 0 as well. None of these defaults is null.
\<close>

theorem absent_fields_get_defaults:
  assumes "check_details cid (JDict kvs) = Inr (Some p)"
  shows
   "(map_of kvs ''name'' = None \<longrightarrow> name p = JStr ''Unknown'')
  \<and> (map_of kvs ''symbol'' = None \<longrightarrow> symbol p = JStr [])
  \<and> (map_of kvs ''description'' = None \<longrightarrow> description p = JStr ''No description available'')
  \<and> (\<forall>d. map_of kvs ''description'' = Some (JDict d) \<and> map_of d ''en'' = None
         \<longrightarrow> description p = JStr ''No description available'')
  \<and> (map_of kvs ''community_data'' = None
         \<longrightarrow> twitter_followers p = JInt 0 \<and> telegram_users p = JInt 0)
  \<and> (\<forall>c. map_of kvs ''community_data'' = Some (JDict c) \<longrightarrow>
        (map_of c ''twitter_followers'' = None \<or> map_of c ''twitter_followers'' = Some JNull
           \<longrightarrow> twitter_followers p = JInt 0)
      \<and> (map_of c ''telegram_channel_user_count'' = None
          \<or> map_of c ''telegram_channel_user_count'' = Some JNull
           \<longrightarrow> telegram_users p = JInt 0))
  \<and> (map_of kvs ''links'' = None
         \<longrightarrow> homepage p = JStr [] \<and> twitter p = JStr [] \<and> telegram p = JStr []
             \<and> discord p = JStr [])
  \<and> (\<forall>l. map_of kvs ''links'' = Some (JDict l) \<longrightarrow>
        (map_of l ''homepage'' = None \<longrightarrow> homepage p = JStr [])
      \<and> (map_of l ''twitter_screen_name'' = None \<longrightarrow> twitter p = JStr [])
      \<and> (map_of l ''telegram_channel_identifier'' = None \<longrightarrow> telegram p = JStr [])
      \<and> (map_of l ''chat_url'' = None \<longrightarrow> discord p = JStr []))
  \<and> (map_of kvs ''categories'' = None \<longrightarrow> categories p = JList [])
  \<and> (map_of kvs ''contract_address'' = None \<longrightarrow> contract_address p = JStr [])
  \<and> (map_of kvs ''market_data'' = None \<longrightarrow> market_cap p = JInt 0)
  \<and> (\<forall>m. map_of kvs ''market_data'' = Some (JDict m) \<longrightarrow>
        (map_of m ''market_cap'' = None \<longrightarrow> market_cap p = JInt 0)
      \<and> (\<forall>mc. map_of m ''market_cap'' = Some (JDict mc) \<and> map_of mc ''usd'' = None
            \<longrightarrow> market_cap p = JInt 0))"
proof -
  from assms obtain links tw tg where sm: "social_metrics (JDict kvs) = Inr (links, tw, tg)"
    and b: "build_project_info cid (JDict kvs) links tw tg = Inr p"
    by (rule check_details_Some)
  from sm obtain cd x y where cd: "dict_get (JDict kvs) ''community_data'' (JDict []) = Inr cd"
    and ln: "dict_get (JDict kvs) ''links'' (JDict []) = Inr links"
    and x: "dict_get cd ''twitter_followers'' (JInt 0) = Inr x"
    and y: "dict_get cd ''telegram_channel_user_count'' (JInt 0) = Inr y"
    and tw: "tw = py_or x (JInt 0)" and tg: "tg = py_or y (JInt 0)"
    by (rule social_metrics_Inr)
  note f = build_project_info_fields [OF b]
  have nm: "map_of kvs ''name'' = None \<longrightarrow> name p = JStr ''Unknown''"
    using f(4) by auto
  have sy: "map_of kvs ''symbol'' = None \<longrightarrow> symbol p = JStr []"
    using f(5) by auto
  have de1: "map_of kvs ''description'' = None
      \<longrightarrow> description p = JStr ''No description available''"
    using f(6) by auto
  have de2: "\<forall>d. map_of kvs ''description'' = Some (JDict d) \<and> map_of d ''en'' = None
         \<longrightarrow> description p = JStr ''No description available''"
    using f(6) by auto
  have so1: "map_of kvs ''community_data'' = None
         \<longrightarrow> twitter_followers p = JInt 0 \<and> telegram_users p = JInt 0"
    using cd x y tw tg f(2,3) by (auto simp: py_or_def)
  have so2: "\<forall>c. map_of kvs ''community_data'' = Some (JDict c) \<longrightarrow>
        (map_of c ''twitter_followers'' = None \<or> map_of c ''twitter_followers'' = Some JNull
           \<longrightarrow> twitter_followers p = JInt 0)
      \<and> (map_of c ''telegram_channel_user_count'' = None
          \<or> map_of c ''telegram_channel_user_count'' = Some JNull
           \<longrightarrow> telegram_users p = JInt 0)"
    using cd x y tw tg f(2,3) by (auto simp: py_or_def)
  have li1: "map_of kvs ''links'' = None
         \<longrightarrow> homepage p = JStr [] \<and> twitter p = JStr [] \<and> telegram p = JStr []
             \<and> discord p = JStr []"
  proof
    assume "map_of kvs ''links'' = None"
    with ln have "links = JDict []" by simp
    with f(7,8,9,10) homepage_of_absent [of "[]"] discord_of_absent [of "[]"]
    show "homepage p = JStr [] \<and> twitter p = JStr [] \<and> telegram p = JStr []
             \<and> discord p = JStr []"
      by simp
  qed
  have li2: "\<forall>l. map_of kvs ''links'' = Some (JDict l) \<longrightarrow>
        (map_of l ''homepage'' = None \<longrightarrow> homepage p = JStr [])
      \<and> (map_of l ''twitter_screen_name'' = None \<longrightarrow> twitter p = JStr [])
      \<and> (map_of l ''telegram_channel_identifier'' = None \<longrightarrow> telegram p = JStr [])
      \<and> (map_of l ''chat_url'' = None \<longrightarrow> discord p = JStr [])"
  proof (intro allI impI)
    fix l
    assume "map_of kvs ''links'' = Some (JDict l)"
    with ln have "links = JDict l" by simp
    with f(7,8,9,10) homepage_of_absent [of l] discord_of_absent [of l]
    show "(map_of l ''homepage'' = None \<longrightarrow> homepage p = JStr [])
      \<and> (map_of l ''twitter_screen_name'' = None \<longrightarrow> twitter p = JStr [])
      \<and> (map_of l ''telegram_channel_identifier'' = None \<longrightarrow> telegram p = JStr [])
      \<and> (map_of l ''chat_url'' = None \<longrightarrow> discord p = JStr [])"
      by auto
  qed
  have ca: "map_of kvs ''categories'' = None \<longrightarrow> categories p = JList []"
    using f(11) by auto
  have co: "map_of kvs ''contract_address'' = None \<longrightarrow> contract_address p = JStr []"
    using f(12) by auto
  have mc1: "map_of kvs ''market_data'' = None \<longrightarrow> market_cap p = JInt 0"
    using f(13) by auto
  have mc2: "\<forall>m. map_of kvs ''market_data'' = Some (JDict m) \<longrightarrow>
        (map_of m ''market_cap'' = None \<longrightarrow> market_cap p = JInt 0)
      \<and> (\<forall>mc. map_of m ''market_cap'' = Some (JDict mc) \<and> map_of mc ''usd'' = None
            \<longrightarrow> market_cap p = JInt 0)"
    using f(13) by auto
  from nm sy de1 de2 so1 so2 li1 li2 ca co mc1 mc2 show ?thesis
    by (intro conjI)
qed

theorem absent_fields_get_defaults_witness:
  "check_details (JStr ''FOO'') (JDict [(''id'', JStr ''FOO'')]) = Inr (Some default_project)
   \<and> map_of [(''id'', JStr ''FOO'')] ''name'' = None
   \<and> map_of [(''id'', JStr ''FOO'')] ''symbol'' = None
   \<and> map_of [(''id'', JStr ''FOO'')] ''description'' = None
   \<and> map_of [(''id'', JStr ''FOO'')] ''community_data'' = None
   \<and> map_of [(''id'', JStr ''FOO'')] ''links'' = None
   \<and> map_of [(''id'', JStr ''FOO'')] ''categories'' = None
   \<and> map_of [(''id'', JStr ''FOO'')] ''contract_address'' = None
   \<and> map_of [(''id'', JStr ''FOO'')] ''market_data'' = None
   \<and> check_details (JStr ''FOO'')
        (JDict [(''id'', JStr ''FOO''),
                (''description'', JDict []),
                (''community_data'', JDict [(''twitter_followers'', JNull)]),
                (''links'', JDict []),
                (''market_data'', JDict [(''market_cap'', JDict [])])])
       = Inr (Some default_project)
   \<and> name default_project = JStr ''Unknown''
   \<and> symbol default_project = JStr []
   \<and> description default_project = JStr ''No description available''
   \<and> twitter_followers default_project = JInt 0
   \<and> telegram_users default_project = JInt 0
   \<and> homepage default_project = JStr []
   \<and> twitter default_project = JStr []
   \<and> telegram default_project = JStr []
   \<and> discord default_project = JStr []
   \<and> categories default_project = JList []
   \<and> contract_address default_project = JStr []
   \<and> market_cap default_project = JInt 0"
proof -
  have h: "check_details (JStr ''FOO'') (JDict [(''id'', JStr ''FOO'')])
      = Inr (Some default_project)"
    using check_details_bare by (simp add: details_bare_def)
  have h': "check_details (JStr ''FOO'')
        (JDict [(''id'', JStr ''FOO''),
                (''description'', JDict []),
                (''community_data'', JDict [(''twitter_followers'', JNull)]),
                (''links'', JDict []),
                (''market_data'', JDict [(''market_cap'', JDict [])])])
       = Inr (Some default_project)"
    using check_details_hollow by (simp add: details_hollow_def)
  from absent_fields_get_defaults [OF h]
  have a: "name default_project = JStr ''Unknown''
   \<and> symbol default_project = JStr []
   \<and> categories default_project = JList []
   \<and> contract_address default_project = JStr []"
    by simp
  from absent_fields_get_defaults [OF h']
  have b: "description default_project = JStr ''No description available''
   \<and> twitter_followers default_project = JInt 0
   \<and> telegram_users default_project = JInt 0
   \<and> homepage default_project = JStr []
   \<and> twitter default_project = JStr []
   \<and> telegram default_project = JStr []
   \<and> discord default_project = JStr []
   \<and> market_cap default_project = JInt 0"
    by simp
  from h h' a b show ?thesis by simp
qed

text \<open>The name and the description of a record with no such fields are not empty.\<close>

theorem absent_name_and_description_get_placeholders:
  "check_details (JStr ''FOO'') (JDict [(''id'', JStr ''FOO'')]) =
     Inr (Some \<lparr>coin_id = JStr ''FOO'', name = JStr ''Unknown'', symbol = JStr [],
      description = JStr ''No description available'',
      twitter_followers = JInt 0, telegram_users = JInt 0, homepage = JStr [],
      twitter = JStr [], telegram = JStr [], discord = JStr [], categories = JList [],
      contract_address = JStr [], market_cap = JInt 0\<rparr>)
   \<and> JStr ''Unknown'' \<noteq> JStr []
   \<and> JStr ''No description available'' \<noteq> JStr []"
  by (simp add: scan_unfold)

text \<open>Only the two counts are guarded by \<^verbatim>\<open>or 0\<close>: a name that is there and null stays
  null in the record.\<close>

lemma null_name_is_kept:
  "map_option name (projr (check_details (JStr ''FOO'')
      (JDict [(''id'', JStr ''FOO''), (''name'', JNull)]))) = Some JNull"
  by (simp add: scan_unfold)

subsection \<open>C7: the description is cut at 500 characters\<close>

text \<open>
  C7. The description of every record that a scan returns has length at most 500; it is the
  first 500 characters of the upstream text, so a text of 600 characters is stored with 500.
\<close>

theorem description_at_most_500:
  "(scan_for_projects net w = (w', Inr ps) \<and> p \<in> set ps
      \<longrightarrow> (\<exists>n. py_len (description p) = Inr n \<and> n \<le> 500))
   \<and> (check_details cid details = Inr (Some q)
        \<and> dict_get details ''description'' (JDict []) = Inr d
        \<and> dict_get d ''en'' (JStr ''No description available'') = Inr (JStr s)
      \<longrightarrow> description q = JStr (take 500 s))"
proof (intro conjI impI)
  assume a: "scan_for_projects net w = (w', Inr ps) \<and> p \<in> set ps"
  then obtain cs where "scan_loop net (fst (get_new_coins net w)) cs [] = (w', Inr ps)"
    by (auto simp: scan_for_projects_loop split: sum.splits)
  from scan_loop_results_checked [OF this] a
  obtain c e where "check_details c e = Inr (Some p)" by auto
  then show "\<exists>n. py_len (description p) = Inr n \<and> n \<le> 500"
    by (rule check_details_description)
next
  assume a: "check_details cid details = Inr (Some q)
        \<and> dict_get details ''description'' (JDict []) = Inr d
        \<and> dict_get d ''en'' (JStr ''No description available'') = Inr (JStr s)"
  then obtain links tw tg where "build_project_info cid details links tw tg = Inr q"
    by (auto elim: check_details_Some)
  from build_project_info_fields(6) [OF this] a
  show "description q = JStr (take 500 s)" by simp
qed

theorem description_at_most_500_witness:
  "scan_for_projects (net_one (details_described ''FOO'' (replicate 600 (CHR ''a''))))
       initial_world
     = (\<lparr>sent_projects = {|JStr ''FOO''|},
         trace = [Sleep (3 / 2), Found (JStr ''FOO''), DetailRequest (JStr ''FOO''),
                  ListRequest]\<rparr>,
        Inr [(project_of ''FOO'' 0 0)\<lparr>description := JStr (replicate 500 (CHR ''a''))\<rparr>])
   \<and> (project_of ''FOO'' 0 0)\<lparr>description := JStr (replicate 500 (CHR ''a''))\<rparr>
       \<in> set [(project_of ''FOO'' 0 0)\<lparr>description := JStr (replicate 500 (CHR ''a''))\<rparr>]
   \<and> py_len (description
         ((project_of ''FOO'' 0 0)\<lparr>description := JStr (replicate 500 (CHR ''a''))\<rparr>))
       = Inr 500
   \<and> (500::nat) \<le> 500
   \<and> length (replicate 600 (CHR ''a'')) = 600"
proof -
  let ?net = "net_one (details_described ''FOO'' (replicate 600 (CHR ''a'')))"
  let ?p = "(project_of ''FOO'' 0 0)\<lparr>description := JStr (replicate 500 (CHR ''a''))\<rparr>"
  let ?w' = "\<lparr>sent_projects = {|JStr ''FOO''|},
         trace = [Sleep (3 / 2), Found (JStr ''FOO''), DetailRequest (JStr ''FOO''),
                  ListRequest]\<rparr>"
  have run: "scan_for_projects ?net initial_world = (?w', Inr [?p])"
    by (simp add: scan_unfold details_described_def)
  from description_at_most_500 [of ?net initial_world ?w' "[?p]" ?p] run
  have "\<exists>n. py_len (description ?p) = Inr n \<and> n \<le> 500" by simp
  then have "py_len (description ?p) = Inr 500" by simp
  with run show ?thesis by simp
qed

subsection \<open>C8: at most 100 listed, at most 20 considered\<close>

text \<open>
  C8. The listing operation returns the last 100 entries of the upstream array (all of them
  when there are no more than 100), the scan runs its loop over the first 20 of what the
  listing returned, and one scan adds at most 20 detail requests to the trace.
\<close>

theorem listing_capped_at_100_and_scan_at_20:
  "new_coins_of (Response 200 (Some (JList xs))) = JList (drop (length xs - 100) xs)
   \<and> length (drop (length xs - 100) xs) \<le> 100
   \<and> (snd (get_new_coins net w) = JList cs
        \<longrightarrow> scan_for_projects net w = scan_loop net (fst (get_new_coins net w)) (take 20 cs) [])
   \<and> detail_requests (fst (scan_for_projects net w)) \<le> detail_requests w + 20"
proof (intro conjI impI)
  show "new_coins_of (Response 200 (Some (JList xs))) = JList (drop (length xs - 100) xs)"
    by (simp add: new_coins_of_def)
  show "length (drop (length xs - 100) xs) \<le> 100" by simp
  show "detail_requests (fst (scan_for_projects net w)) \<le> detail_requests w + 20"
    by (rule scan_for_projects_requests)
next
  assume "snd (get_new_coins net w) = JList cs"
  then show "scan_for_projects net w = scan_loop net (fst (get_new_coins net w)) (take 20 cs) []"
    by (simp add: scan_for_projects_loop)
qed

theorem listing_capped_at_100_and_scan_at_20_witness:
  "snd (get_new_coins (net_table (ok_list listing25) []) initial_world) = JList listing25
   \<and> length listing25 = 25
   \<and> scan_for_projects (net_table (ok_list listing25) []) initial_world
       = scan_loop (net_table (ok_list listing25) [])
           (fst (get_new_coins (net_table (ok_list listing25) []) initial_world))
           (take 20 listing25) []
   \<and> length (take 20 listing25) = 20
   \<and> detail_requests (fst (scan_for_projects (net_table (ok_list listing25) []) initial_world))
       \<le> detail_requests initial_world + 20"
proof -
  let ?net = "net_table (ok_list listing25) []"
  have l: "length listing25 = 25" by (simp add: listing25_def)
  have h: "snd (get_new_coins ?net initial_world) = JList listing25"
    by (simp add: get_new_coins_def new_coins_of_def net_table_def ok_list_def l)
  note main = listing_capped_at_100_and_scan_at_20 [of listing25 ?net initial_world listing25]
  from main h have s: "scan_for_projects ?net initial_world
       = scan_loop ?net (fst (get_new_coins ?net initial_world)) (take 20 listing25) []"
    by blast
  from main have b: "detail_requests (fst (scan_for_projects ?net initial_world))
       \<le> detail_requests initial_world + 20"
    by blast
  have t: "length (take 20 listing25) = 20" using l by simp
  from h l s t b show ?thesis by blast
qed

text \<open>The bound is reached: of 25 listed candidates whose detail requests all fail, exactly
  the first 20 are requested.\<close>

lemma scan_loop_all_absent:
  assumes "sent_projects w = {||}"
  shows "scan_loop (net_table l []) w (map (\<lambda>n. JDict [(''id'', JInt (int n))]) ns) acc
    = (w\<lparr>trace := rev (map (\<lambda>n. DetailRequest (JInt (int n))) ns) @ trace w\<rparr>, Inr acc)"
  using assms
proof (induction ns arbitrary: w)
  case Nil
  then show ?case by simp
next
  case (Cons n ns)
  let ?w1 = "w\<lparr>trace := DetailRequest (JInt (int n)) # trace w\<rparr>"
  have "scan_coin (net_table l []) w (JDict [(''id'', JInt (int n))]) = (?w1, Inr None)"
    using Cons.prems
    by (simp add: scan_coin_def py_in_def get_coin_details_def net_table_def details_of_def)
  moreover have "sent_projects ?w1 = {||}" using Cons.prems by simp
  ultimately show ?case using Cons.IH [of ?w1] by simp
qed

lemma twenty_five_listed_twenty_fetched:
  "detail_requests (fst (scan_for_projects (net_table (ok_list listing25) []) initial_world)) = 20"
proof -
  let ?net = "net_table (ok_list listing25) []"
  have g: "snd (get_new_coins ?net initial_world) = JList listing25"
    by (simp add: get_new_coins_def new_coins_of_def net_table_def ok_list_def listing25_def)
  have t: "take 20 listing25 = map (\<lambda>n. JDict [(''id'', JInt (int n))]) [0..<20]"
    by (simp add: listing25_def take_map)
  have "scan_for_projects ?net initial_world
      = scan_loop ?net (fst (get_new_coins ?net initial_world))
          (map (\<lambda>n. JDict [(''id'', JInt (int n))]) [0..<20]) []"
    using g t by (simp add: scan_for_projects_loop)
  also have "\<dots> = ((fst (get_new_coins ?net initial_world))
      \<lparr>trace := rev (map (\<lambda>n. DetailRequest (JInt (int n))) [0..<20])
          @ trace (fst (get_new_coins ?net initial_world))\<rparr>, Inr [])"
    by (rule scan_loop_all_absent) (simp add: initial_world_def)
  finally show ?thesis
    by (simp add: detail_requests_def initial_world_def)
qed

subsection \<open>C9: the count that \<^verbatim>\<open>/stats\<close> shows\<close>




subsection \<open>C10: no identifier is emitted twice\<close>

lemma run_two_scans_duplicate_listing:
  "run_scans net_twice initial_world 2 =
   (\<lparr>sent_projects = {|JStr ''BAR'', JStr ''FOO''|},
     trace = [ListRequest,
              Sleep (3 / 2), Found (JStr ''BAR''), DetailRequest (JStr ''BAR''),
              Sleep (3 / 2), Found (JStr ''FOO''), DetailRequest (JStr ''FOO''),
              ListRequest]\<rparr>,
    [project_of ''FOO'' 10 5, project_of ''BAR'' 199 49])"
  by (simp add: scan_unfold net_twice_def eval_nat_numeral)

text \<open>The task of the event loop is the scan: splitting the body of the loop at the
  \<^verbatim>\<open>await\<close> of line 101 changes nothing when no other task runs in between.\<close>

lemma scan_coin_split:
  "scan_coin net w coin =
     (case scan_coin_begin net w coin of
        (w1, Inl e) \<Rightarrow> (w1, Inl e)
      | (w1, Inr None) \<Rightarrow> (w1, Inr None)
      | (w1, Inr (Some (cid, d))) \<Rightarrow>
          (if \<not> truthy d then (w1, Inr None)
           else
             (case check_details cid d of
                Inl e \<Rightarrow> (w1, Inl e)
              | Inr None \<Rightarrow> (w1\<lparr>trace := Sleep (3 / 2) # trace w1\<rparr>, Inr None)
              | Inr (Some p) \<Rightarrow>
                  (w1\<lparr>sent_projects := finsert (hash_key cid) (sent_projects w1),
                      trace := Sleep (3 / 2) # Found (name p) # trace w1\<rparr>,
                   Inr (Some p)))))"
  by (simp add: scan_coin_def scan_coin_begin_def get_coin_details_def Let_def
      split: sum.splits bool.splits option.splits)

lemma done_stays:
  "run_schedule net w [Done r] (replicate k 0) = (w, [Done r])"
  by (induction k) simp_all

lemma run_single_step:
  "task_step net w t = (w', t') \<Longrightarrow>
   run_schedule net w [t] (replicate (Suc k) 0) = run_schedule net w' [t'] (replicate k 0)"
  by simp

lemma run_to_await_alone:
  assumes "2 * length coins \<le> k"
  shows "run_schedule net (fst (run_to_await net w coins acc))
           [snd (run_to_await net w coins acc)] (replicate k 0)
         = (fst (scan_loop net w coins acc), [Done (snd (scan_loop net w coins acc))])"
  using assms
proof (induction coins arbitrary: w acc k)
  case Nil
  then show ?case by (simp add: done_stays)
next
  case (Cons coin coins)
  obtain w1 b where b: "scan_coin_begin net w coin = (w1, b)"
    by (cases "scan_coin_begin net w coin")
  from Cons.prems obtain k' where k: "k = Suc (Suc k')" and k': "2 * length coins \<le> k'"
    by (cases k; cases "k - 1") auto
  show ?case
  proof (cases b)
    case (Inl e)
    with b have "scan_coin net w coin = (w1, Inl e)" by (simp add: scan_coin_split)
    with b Inl show ?thesis by (simp add: done_stays)
  next
    case (Inr opt)
    show ?thesis
    proof (cases opt)
      case None
      with b Inr have "scan_coin net w coin = (w1, Inr None)" by (simp add: scan_coin_split)
      with b Inr None Cons.IH [of k w1 acc] Cons.prems show ?thesis by simp
    next
      case (Some pending)
      obtain cid d where pending: "pending = (cid, d)" by (cases pending)
      have rta: "run_to_await net w (coin # coins) acc = (w1, AwaitDetail cid d coins acc)"
        using b Inr Some pending by simp
      show ?thesis
      proof (cases "truthy d")
        case False
        with b Inr Some pending have sc: "scan_coin net w coin = (w1, Inr None)"
          by (simp add: scan_coin_split)
        have "task_step net w1 (AwaitDetail cid d coins acc) = run_to_await net w1 coins acc"
          using False by simp
        then have "run_schedule net w1 [AwaitDetail cid d coins acc] (replicate k 0)
            = run_schedule net (fst (run_to_await net w1 coins acc))
                [snd (run_to_await net w1 coins acc)] (replicate (Suc k') 0)"
          unfolding k by (cases "run_to_await net w1 coins acc") simp
        also have "\<dots> = (fst (scan_loop net w1 coins acc),
            [Done (snd (scan_loop net w1 coins acc))])"
          using k' by (intro Cons.IH) simp
        finally show ?thesis using rta sc by simp
      next
        case True
        show ?thesis
        proof (cases "check_details cid d")
          case (Inl e)
          with b Inr Some pending True have sc: "scan_coin net w coin = (w1, Inl e)"
            by (simp add: scan_coin_split)
          have "task_step net w1 (AwaitDetail cid d coins acc) = (w1, Done (Inl e))"
            using True Inl by simp
          then have "run_schedule net w1 [AwaitDetail cid d coins acc] (replicate k 0)
              = run_schedule net w1 [Done (Inl e)] (replicate (Suc k') 0)"
            unfolding k by (rule run_single_step)
          also have "\<dots> = (w1, [Done (Inl e)])" by (rule done_stays)
          finally show ?thesis using rta sc by simp
        next
          case (Inr res)
          define w2 where "w2 = (case res of
              None \<Rightarrow> w1\<lparr>trace := Sleep (3 / 2) # trace w1\<rparr>
            | Some p \<Rightarrow> w1\<lparr>sent_projects := finsert (hash_key cid) (sent_projects w1),
                           trace := Sleep (3 / 2) # Found (name p) # trace w1\<rparr>)"
          define acc2 where "acc2 = acc @ (case res of None \<Rightarrow> [] | Some p \<Rightarrow> [p])"
          from b \<open>b = Inr opt\<close> Some pending True Inr
          have sc: "scan_coin net w coin = (w2, Inr res)"
            by (cases res) (simp_all add: scan_coin_split w2_def)
          then have loop: "scan_loop net w (coin # coins) acc = scan_loop net w2 coins acc2"
            unfolding acc2_def by (rule scan_loop_Cons)
          have s1: "task_step net w1 (AwaitDetail cid d coins acc) = (w2, Sleeping coins acc2)"
            using True Inr by (cases res) (simp_all add: w2_def acc2_def)
          have s2: "task_step net w2 (Sleeping coins acc2) = run_to_await net w2 coins acc2"
            by simp
          have "run_schedule net w1 [AwaitDetail cid d coins acc] (replicate k 0)
              = run_schedule net w2 [Sleeping coins acc2] (replicate (Suc k') 0)"
            unfolding k using s1 by (rule run_single_step)
          also have "\<dots> = run_schedule net (fst (run_to_await net w2 coins acc2))
                [snd (run_to_await net w2 coins acc2)] (replicate k' 0)"
            using s2 by (cases "run_to_await net w2 coins acc2") simp
          also have "\<dots> = (fst (scan_loop net w2 coins acc2),
              [Done (snd (scan_loop net w2 coins acc2))])"
            using k' by (rule Cons.IH)
          finally show ?thesis using rta loop by simp
        qed
      qed
    qed
  qed
qed

text \<open>A task that no other task interrupts does what \<open>scan_for_projects\<close> does.\<close>

lemma task_alone_is_scan:
  "run_schedule net w [Start] (replicate 42 0)
     = (fst (scan_for_projects net w), [Done (snd (scan_for_projects net w))])"
proof -
  obtain w1 coins where g: "get_new_coins net w = (w1, coins)"
    by (cases "get_new_coins net w")
  have "replicate 42 (0::nat) = 0 # 0 # replicate 40 0"
    by (simp add: eval_nat_numeral)
  then have step: "run_schedule net w [Start] (replicate 42 0)
      = (case task_step net w1 (AwaitList coins) of
           (w', t') \<Rightarrow> run_schedule net w' [t'] (replicate 40 0))"
    using g by simp
  show ?thesis
  proof (cases "pbind (py_slice_to coins 20) py_iter")
    case (Inl e)
    with g step show ?thesis by (simp add: scan_for_projects_def done_stays)
  next
    case (Inr cs)
    then have "length cs \<le> 20" by (rule candidates_at_most_20)
    then have "2 * length cs \<le> 40" by simp
    from run_to_await_alone [OF this, of net w1 "[]"] Inr g step
    show ?thesis
      by (cases "run_to_await net w1 cs []") (simp add: scan_for_projects_def)
  qed
qed

text \<open>
  C10. When scans do not overlap, each one running to its end before the next one starts, the
  identifiers in the concatenation of the results of any number of scans, from any store, are
  pairwise different (also up to \<^verbatim>\<open>True == 1\<close>); each of them was not in the store
  before and is in it afterwards, and the store only grows.
\<close>

theorem identifier_emitted_at_most_once:
  "distinct (map coin_id (snd (run_scans net w n)))
   \<and> distinct (map project_key (snd (run_scans net w n)))
   \<and> (\<forall>p\<in>set (snd (run_scans net w n)).
        project_key p |\<notin>| sent_projects w
        \<and> project_key p |\<in>| sent_projects (fst (run_scans net w n)))
   \<and> sent_projects w |\<subseteq>| sent_projects (fst (run_scans net w n))"
proof -
  note d = run_scans_dedup [of net w n]
  have "map project_key (snd (run_scans net w n)) = map hash_key (map coin_id (snd (run_scans net w n)))"
    by (simp add: project_key_def)
  with d have "distinct (map hash_key (map coin_id (snd (run_scans net w n))))" by simp
  then have "distinct (map coin_id (snd (run_scans net w n)))"
    using distinct_map [of hash_key "map coin_id (snd (run_scans net w n))"] by blast
  with d show ?thesis by blast
qed

theorem identifier_emitted_at_most_once_witness:
  "snd (run_scans net_twice initial_world 2) = [project_of ''FOO'' 10 5, project_of ''BAR'' 199 49]
   \<and> distinct (map coin_id [project_of ''FOO'' 10 5, project_of ''BAR'' 199 49])
   \<and> project_of ''FOO'' 10 5 \<in> set (snd (run_scans net_twice initial_world 2))
   \<and> project_key (project_of ''FOO'' 10 5) |\<notin>| sent_projects initial_world
   \<and> project_key (project_of ''FOO'' 10 5)
       |\<in>| sent_projects (fst (run_scans net_twice initial_world 2))"
proof -
  have r: "snd (run_scans net_twice initial_world 2)
      = [project_of ''FOO'' 10 5, project_of ''BAR'' 199 49]"
    by (simp add: run_two_scans_duplicate_listing)
  then have m: "project_of ''FOO'' 10 5 \<in> set (snd (run_scans net_twice initial_world 2))"
    by simp
  note main = identifier_emitted_at_most_once [of net_twice initial_world 2]
  from main r have "distinct (map coin_id [project_of ''FOO'' 10 5, project_of ''BAR'' 199 49])"
    by simp
  moreover from main m have "project_key (project_of ''FOO'' 10 5) |\<notin>| sent_projects initial_world
   \<and> project_key (project_of ''FOO'' 10 5)
       |\<in>| sent_projects (fst (run_scans net_twice initial_world 2))"
    by blast
  ultimately show ?thesis using r m by blast
qed

text \<open>
  Two scans that overlap, with one candidate each: both test the store (line 97) and send their
  request (line 101) before either adds the identifier (line 131), and both return it.
\<close>

theorem overlapping_scans_emit_twice:
  "run_schedule (net_one (details_social ''FOO'' 10 5)) initial_world [Start, Start]
       [0, 1, 0, 1, 0, 1, 0, 1]
     = (\<lparr>sent_projects = {|JStr ''FOO''|},
         trace = [Sleep (3 / 2), Found (JStr ''FOO''), Sleep (3 / 2), Found (JStr ''FOO''),
                  DetailRequest (JStr ''FOO''), DetailRequest (JStr ''FOO''),
                  ListRequest, ListRequest]\<rparr>,
        [Done (Inr [project_of ''FOO'' 10 5]), Done (Inr [project_of ''FOO'' 10 5])])
   \<and> \<not> distinct (map coin_id ([project_of ''FOO'' 10 5] @ [project_of ''FOO'' 10 5]))"
  by (simp add: scan_unfold scan_coin_begin_def)

end
